theory Spec2Isabelle
  imports Complex_Main "HOL-Library.Word" "HOL-Library.Char_ord" "HOL-Library.List_Lexorder"
begin

unbundle bit_operations_syntax

section \<open>Python values\<close>

text \<open>
  A Python \<open>str\<close> is modelled as \<open>string\<close>: one \<open>char\<close> stands for one code point
  below 256, so \<open>length\<close> is Python's \<open>len\<close> on such strings. A \<open>dict\<close> whose iteration
  order is not observed is a map; exceptions are values of \<open>exn\<close>, and a function that can
  raise returns \<open>exn + 'a\<close> with \<open>Inl\<close> for the exception.
\<close>

datatype exn =
    ImportError string
  | KeyError string
  | Exception string

text \<open>\<open>str(e)\<close>: the message; a \<open>KeyError\<close> prints the \<open>repr\<close> of its key.\<close>

fun str_exn :: "exn \<Rightarrow> string" where
  "str_exn (ImportError m) = m"
| "str_exn (KeyError k) = [CHR 0x27] @ k @ [CHR 0x27]"
| "str_exn (Exception m) = m"

text \<open>\<open>str.isspace\<close> on code points below 256.\<close>

definition isspace :: "char \<Rightarrow> bool" where
  "isspace c =
     (let n = (of_char c :: nat)
      in (9 \<le> n \<and> n \<le> 13) \<or> (28 \<le> n \<and> n \<le> 32) \<or> n = 133 \<or> n = 160)"

definition str_strip :: "string \<Rightarrow> string" where
  "str_strip s = rev (dropWhile isspace (rev (dropWhile isspace s)))"

text \<open>\<open>str.lower\<close> on code points below 256: A-Z, and the Latin-1 capitals but U+00D7.\<close>

definition chr_lower :: "char \<Rightarrow> char" where
  "chr_lower c =
     (let n = (of_char c :: nat)
      in if (65 \<le> n \<and> n \<le> 90) \<or> (192 \<le> n \<and> n \<le> 222 \<and> n \<noteq> 215)
         then char_of (n + 32) else c)"

definition str_lower :: "string \<Rightarrow> string" where
  "str_lower s = map chr_lower s"

text \<open>\<open>s.split(sep)\<close> for a one-character separator: never the empty list.\<close>

fun str_split :: "char \<Rightarrow> string \<Rightarrow> string list" where
  "str_split sep [] = [[]]"
| "str_split sep (c # cs) =
     (if c = sep then [] # str_split sep cs
      else (case str_split sep cs of
              [] \<Rightarrow> [[c]]
            | p # ps \<Rightarrow> (c # p) # ps))"

section \<open>extractors.py\<close>

text \<open>
  An uploaded file, as far as the code reads it: its name and its declared content type
  (which may be \<open>None\<close>). Its bytes are only read by the PDF and OCR libraries.
\<close>

record uploaded_file =
  name :: string
  content_type :: "string option"

text \<open>
  The libraries behind the extractor. \<open>PyPDF2\<close> and \<open>Image_pytesseract\<close> say whether the
  imports at the top of the module succeeded. \<open>pdf_pages\<close> is what \<open>PdfReader\<close> and
  \<open>extract_text\<close> give for a file: the text of each page, or the message of the exception
  they raise. \<open>image_to_string\<close> likewise for opening the image and running the OCR.
\<close>

record backends =
  PyPDF2 :: bool
  Image_pytesseract :: bool
  pdf_pages :: "uploaded_file \<Rightarrow> string + string list"
  image_to_string :: "uploaded_file \<Rightarrow> string + string"

type_synonym fields = "string \<rightharpoonup> string"

definition extract_from_pdf :: "backends \<Rightarrow> uploaded_file \<Rightarrow> exn + string" where
  "extract_from_pdf lib file_obj =
     (if \<not> PyPDF2 lib then
        Inl (ImportError ''PyPDF2 is required for PDF extraction. Install with: pip install PyPDF2'')
      else
        (case pdf_pages lib file_obj of
           Inl e \<Rightarrow> Inl (Exception (''PDF extraction failed: '' @ e))
         | Inr pages \<Rightarrow> Inr (str_strip (concat (map (\<lambda>p. p @ [CHR 0x0A]) pages)))))"

definition extract_from_image :: "backends \<Rightarrow> uploaded_file \<Rightarrow> exn + string" where
  "extract_from_image lib file_obj =
     (if \<not> Image_pytesseract lib then
        Inl (ImportError (''PIL and pytesseract are required for image extraction. '' @
                          ''Install with: pip install Pillow pytesseract''))
      else
        (case image_to_string lib file_obj of
           Inl e \<Rightarrow> Inl (Exception (''Image extraction failed: '' @ e))
         | Inr text \<Rightarrow> Inr (str_strip text)))"

text \<open>
  \<open>extract_from_file\<close>. The pattern matching of \<open>_extract_structured_data\<close> is the
  parameter \<open>structured\<close>: any function of the text and the proof type, which may also
  raise. The extension is computed before the \<open>try\<close>; everything else is inside it.
\<close>

definition file_extension :: "uploaded_file \<Rightarrow> string" where
  "file_extension file_obj = str_lower (last (str_split (CHR ''.'') (name file_obj)))"

definition image_extensions :: "string list" where
  "image_extensions = [''png'', ''jpg'', ''jpeg'', ''gif'', ''tiff'']"

definition extract_from_file ::
  "backends \<Rightarrow> (string \<Rightarrow> string \<Rightarrow> exn + fields) \<Rightarrow> uploaded_file \<Rightarrow> string
     \<Rightarrow> exn + (fields \<times> string)" where
  "extract_from_file lib structured file_obj proof_type =
     (let text =
            (if file_extension file_obj = ''pdf''
               then map_sum id Some (extract_from_pdf lib file_obj)
             else if file_extension file_obj \<in> set image_extensions
               then map_sum id Some (extract_from_image lib file_obj)
             else Inr None)
      in case text of
           Inr None \<Rightarrow> Inr (Map.empty, ''Unsupported file type'')
         | Inr (Some t) \<Rightarrow>
             (case structured t proof_type of
                Inr extracted_data \<Rightarrow> Inr (extracted_data, t)
              | Inl e \<Rightarrow> Inr (Map.empty, ''Error extracting data: '' @ str_exn e))
         | Inl e \<Rightarrow> Inr (Map.empty, ''Error extracting data: '' @ str_exn e))"

definition suggestion_defaults :: "string \<rightharpoonup> (string \<times> string) list" where
  "suggestion_defaults =
     [''certificate'' \<mapsto>
        [(''certificate_title'', ''Professional Certificate''),
         (''program_category'', ''Professional Development'')],
      ''job_history'' \<mapsto> [(''job_category'', ''General'')]]"

definition suggest_missing_fields :: "fields \<Rightarrow> string \<Rightarrow> fields" where
  "suggest_missing_fields extracted_data proof_type =
     (case suggestion_defaults proof_type of
        None \<Rightarrow> Map.empty
      | Some defaults \<Rightarrow>
          (\<lambda>field. if extracted_data field = None then map_of defaults field else None))"

text \<open>
  The confidence report. \<open>overall\<close> is a Python float; the model computes the quotient
  exactly, in the reals.
\<close>

record confidence =
  overall :: real
  field_labels :: fields

definition required_fields :: "string \<rightharpoonup> string list" where
  "required_fields =
     [''certificate'' \<mapsto> [''certificate_title'', ''issuer_name'', ''completion_date''],
      ''job_history'' \<mapsto> [''job_title'', ''employer_name'', ''start_date'']]"

text \<open>\<open>field in extracted_data and extracted_data[field]\<close>: present and not empty.\<close>

definition found :: "fields \<Rightarrow> string \<Rightarrow> bool" where
  "found extracted_data field =
     (case extracted_data field of None \<Rightarrow> False | Some v \<Rightarrow> v \<noteq> [])"

definition label_of :: "string \<Rightarrow> string option" where
  "label_of v =
     (if v \<noteq> [] \<and> length v > 3 then Some ''high''
      else if v \<noteq> [] then Some ''low''
      else None)"

definition get_extraction_confidence :: "fields \<Rightarrow> string \<Rightarrow> confidence" where
  "get_extraction_confidence extracted_data proof_type =
     (case required_fields proof_type of
        None \<Rightarrow> \<lparr>overall = 0, field_labels = Map.empty\<rparr>
      | Some req \<Rightarrow>
          (let total_required = length req;
               found_required = length (filter (found extracted_data) req)
           in \<lparr>overall = (real found_required / real total_required) * 100,
               field_labels =
                 (\<lambda>field. case extracted_data field of
                             None \<Rightarrow> None
                           | Some v \<Rightarrow> label_of v)\<rparr>))"

record extraction_result =
  extracted_data :: fields
  merged_data :: fields
  suggestions :: fields
  confidence_report :: confidence
  raw_text :: "string option"

definition extract_and_create_document ::
  "backends \<Rightarrow> (string \<Rightarrow> string \<Rightarrow> exn + fields) \<Rightarrow> uploaded_file \<Rightarrow> string
     \<Rightarrow> fields option \<Rightarrow> exn + extraction_result" where
  "extract_and_create_document lib structured file_obj proof_type user_provided_data =
     (case extract_from_file lib structured file_obj proof_type of
        Inl e \<Rightarrow> Inl e
      | Inr (extracted, text) \<Rightarrow>
          (let merged =
                 (case user_provided_data of
                    None \<Rightarrow> extracted
                  | Some u \<Rightarrow> extracted ++ u)
           in Inr \<lparr>extracted_data = extracted,
                   merged_data = merged,
                   suggestions = suggest_missing_fields merged proof_type,
                   confidence_report = get_extraction_confidence extracted proof_type,
                   raw_text = (if text \<noteq> [] then Some (take 500 text) else None)\<rparr>))"

section \<open>json.dumps and hashlib.sha256\<close>

text \<open>
  The values of the fields: JSON scalars. (Floats and nested containers are left out.)
\<close>

datatype jvalue = JNull | JBool bool | JInt int | JStr string

type_synonym payload = "(string \<times> jvalue) list"

definition hex_digit :: "nat \<Rightarrow> char" where
  "hex_digit n = ''0123456789abcdef'' ! n"

text \<open>
  \<open>py_encode_basestring_ascii\<close>: the backslash and the double quote are escaped, the
  printable ASCII characters stand for themselves, and every other code point below 256 is
  written \<open>\b\<close>, \<open>\f\<close>, \<open>\n\<close>, \<open>\r\<close>, \<open>\t\<close> or \<open>\u00xx\<close> with lower-case hex digits.
\<close>

definition escape_char :: "char \<Rightarrow> string" where
  "escape_char c =
     (let n = (of_char c :: nat)
      in if n = 0x5C then [CHR 0x5C, CHR 0x5C]
         else if n = 0x22 then [CHR 0x5C, CHR 0x22]
         else if 32 \<le> n \<and> n \<le> 126 then [c]
         else if n = 8 then [CHR 0x5C, CHR ''b'']
         else if n = 12 then [CHR 0x5C, CHR ''f'']
         else if n = 10 then [CHR 0x5C, CHR ''n'']
         else if n = 13 then [CHR 0x5C, CHR ''r'']
         else if n = 9 then [CHR 0x5C, CHR ''t'']
         else [CHR 0x5C, CHR ''u'', CHR ''0'', CHR ''0'', hex_digit (n div 16), hex_digit (n mod 16)])"

definition encode_str :: "string \<Rightarrow> string" where
  "encode_str s = [CHR 0x22] @ concat (map escape_char s) @ [CHR 0x22]"

text \<open>\<open>int.__repr__\<close>: decimal digits, with a minus sign for a negative number.\<close>

fun digits :: "nat \<Rightarrow> string" where
  "digits n = (if n < 10 then [hex_digit n] else digits (n div 10) @ [hex_digit (n mod 10)])"

declare digits.simps [simp del]

definition repr_int :: "int \<Rightarrow> string" where
  "repr_int i = (if i < 0 then CHR ''-'' # digits (nat (- i)) else digits (nat i))"

fun encode_value :: "jvalue \<Rightarrow> string" where
  "encode_value JNull = ''null''"
| "encode_value (JBool b) = (if b then ''true'' else ''false'')"
| "encode_value (JInt i) = repr_int i"
| "encode_value (JStr s) = encode_str s"

definition encode_item :: "string \<times> jvalue \<Rightarrow> string" where
  "encode_item kv = encode_str (fst kv) @ '': '' @ encode_value (snd kv)"

fun join :: "string \<Rightarrow> string list \<Rightarrow> string" where
  "join sep [] = []"
| "join sep [x] = x"
| "join sep (x # y # ys) = x @ sep @ join sep (y # ys)"

text \<open>\<open>json.dumps(data, sort_keys=True)\<close> for a dictionary of scalars.\<close>

definition json_dumps :: "payload \<Rightarrow> string" where
  "json_dumps data = ''{'' @ join '', '' (map encode_item (sort_key fst data)) @ ''}''"

subsection \<open>SHA-256 (FIPS 180-4)\<close>

definition ch :: "32 word \<Rightarrow> 32 word \<Rightarrow> 32 word \<Rightarrow> 32 word" where
  "ch x y z = (x AND y) XOR (NOT x AND z)"

definition maj :: "32 word \<Rightarrow> 32 word \<Rightarrow> 32 word \<Rightarrow> 32 word" where
  "maj x y z = (x AND y) XOR (x AND z) XOR (y AND z)"

definition rotr :: "nat \<Rightarrow> 32 word \<Rightarrow> 32 word" where
  "rotr n x = drop_bit n x OR push_bit (32 - n) x"

definition bsig0 :: "32 word \<Rightarrow> 32 word" where
  "bsig0 x = rotr 2 x XOR rotr 13 x XOR rotr 22 x"

definition bsig1 :: "32 word \<Rightarrow> 32 word" where
  "bsig1 x = rotr 6 x XOR rotr 11 x XOR rotr 25 x"

definition ssig0 :: "32 word \<Rightarrow> 32 word" where
  "ssig0 x = rotr 7 x XOR rotr 18 x XOR drop_bit 3 x"

definition ssig1 :: "32 word \<Rightarrow> 32 word" where
  "ssig1 x = rotr 17 x XOR rotr 19 x XOR drop_bit 10 x"

text \<open>The 64 round constants, eight to a row.\<close>

definition K256 :: "32 word list" where
  "K256 = concat
    [[0x428a2f98, 0x71374491, 0xb5c0fbcf, 0xe9b5dba5, 0x3956c25b, 0x59f111f1, 0x923f82a4, 0xab1c5ed5],
     [0xd807aa98, 0x12835b01, 0x243185be, 0x550c7dc3, 0x72be5d74, 0x80deb1fe, 0x9bdc06a7, 0xc19bf174],
     [0xe49b69c1, 0xefbe4786, 0x0fc19dc6, 0x240ca1cc, 0x2de92c6f, 0x4a7484aa, 0x5cb0a9dc, 0x76f988da],
     [0x983e5152, 0xa831c66d, 0xb00327c8, 0xbf597fc7, 0xc6e00bf3, 0xd5a79147, 0x06ca6351, 0x14292967],
     [0x27b70a85, 0x2e1b2138, 0x4d2c6dfc, 0x53380d13, 0x650a7354, 0x766a0abb, 0x81c2c92e, 0x92722c85],
     [0xa2bfe8a1, 0xa81a664b, 0xc24b8b70, 0xc76c51a3, 0xd192e819, 0xd6990624, 0xf40e3585, 0x106aa070],
     [0x19a4c116, 0x1e376c08, 0x2748774c, 0x34b0bcb5, 0x391c0cb3, 0x4ed8aa4a, 0x5b9cca4f, 0x682e6ff3],
     [0x748f82ee, 0x78a5636f, 0x84c87814, 0x8cc70208, 0x90befffa, 0xa4506ceb, 0xbef9a3f7, 0xc67178f2]]"

definition H0 :: "32 word list" where
  "H0 = [0x6a09e667, 0xbb67ae85, 0x3c6ef372, 0xa54ff53a,
         0x510e527f, 0x9b05688c, 0x1f83d9ab, 0x5be0cd19]"

text \<open>
  Padding: the byte 0x80, zero bytes up to 56 modulo 64, and the length of the message in
  bits as 8 bytes, most significant first.
\<close>

definition length_bytes :: "nat \<Rightarrow> 8 word list" where
  "length_bytes n =
     map (\<lambda>i. ucast (drop_bit (8 * (7 - i)) (word_of_nat (8 * n) :: 64 word))) [0..<8]"

definition pad :: "8 word list \<Rightarrow> 8 word list" where
  "pad m = m @ [0x80] @ replicate ((119 - length m mod 64) mod 64) 0 @ length_bytes (length m)"

fun be_words :: "8 word list \<Rightarrow> 32 word list" where
  "be_words (a # b # c # d # rest) =
     (push_bit 24 (ucast a) OR push_bit 16 (ucast b) OR push_bit 8 (ucast c) OR ucast d)
       # be_words rest"
| "be_words _ = []"

fun blocks :: "32 word list \<Rightarrow> 32 word list list" where
  "blocks [] = []"
| "blocks (w # ws) = take 16 (w # ws) # blocks (drop 16 (w # ws))"

text \<open>The message schedule: the 16 words of the block, then 48 derived words.\<close>

fun schedule :: "nat \<Rightarrow> 32 word list \<Rightarrow> 32 word list" where
  "schedule 0 w = w"
| "schedule (Suc k) w =
     (let t = length w
      in schedule k
           (w @ [ssig1 (w ! (t - 2)) + w ! (t - 7) + ssig0 (w ! (t - 15)) + w ! (t - 16)]))"

fun round :: "32 word list \<Rightarrow> 32 word \<times> 32 word \<Rightarrow> 32 word list" where
  "round [a, b, c, d, e, f, g, h] (k, w) =
     (let t1 = h + bsig1 e + ch e f g + k + w;
          t2 = bsig0 a + maj a b c
      in [t1 + t2, a, b, c, d + t1, e, f, g])"
| "round s _ = s"

definition compress :: "32 word list \<Rightarrow> 32 word list \<Rightarrow> 32 word list" where
  "compress h block = map2 (+) h (foldl round h (zip K256 (schedule 48 block)))"

text \<open>\<open>hexdigest\<close>: each of the 8 words as 8 lower-case hex digits.\<close>

definition hex_word :: "32 word \<Rightarrow> string" where
  "hex_word w = map (\<lambda>i. hex_digit (unat (drop_bit (4 * (7 - i)) w AND 0xF))) [0..<8]"

definition sha256_hex :: "string \<Rightarrow> string" where
  "sha256_hex s =
     concat (map hex_word (foldl compress H0 (blocks (be_words (pad (map of_char s))))))"

subsection \<open>Reading the serialization back\<close>

text \<open>
  Not part of the program: the inverse of the encoder, used to show that the
  serialization determines the values.
\<close>

definition hexval :: "char \<Rightarrow> nat" where
  "hexval c = length (takeWhile (\<lambda>d. d \<noteq> c) ''0123456789abcdef'')"

definition short_decode :: "char \<Rightarrow> char" where
  "short_decode x =
     (if x = CHR ''b'' then CHR 0x08
      else if x = CHR ''f'' then CHR 0x0C
      else if x = CHR ''n'' then CHR 0x0A
      else if x = CHR ''r'' then CHR 0x0D
      else if x = CHR ''t'' then CHR 0x09
      else x)"

text \<open>One character of a JSON string body, with what follows it.\<close>

fun unescape1 :: "string \<Rightarrow> (char \<times> string) option" where
  "unescape1 [] = None"
| "unescape1 (a # rest) =
     (if a \<noteq> CHR 0x5C then Some (a, rest)
      else (case rest of
              [] \<Rightarrow> None
            | x # rest1 \<Rightarrow>
                (if x \<noteq> CHR ''u'' then Some (short_decode x, rest1)
                 else (case rest1 of
                         z1 # z2 # h1 # h2 # rest2 \<Rightarrow>
                           Some (char_of (16 * hexval h1 + hexval h2), rest2)
                       | _ \<Rightarrow> None))))"

definition isdigit :: "char \<Rightarrow> bool" where
  "isdigit c = (c \<in> set ''0123456789'')"

text \<open>The number that a string of decimal digits denotes.\<close>

definition decimal :: "string \<Rightarrow> nat" where
  "decimal s = foldl (\<lambda>a c. 10 * a + hexval c) 0 s"

section \<open>document_processor.py\<close>

definition generate_hash :: "payload \<Rightarrow> string" where
  "generate_hash data = sha256_hex (json_dumps data)"

text \<open>
  \<open>generate_internal_id\<close>, given the timestamp already formatted by
  \<open>strftime("%Y%m%d%H%M%S%f")\<close>.
\<close>

definition generate_internal_id :: "string \<Rightarrow> string \<Rightarrow> string" where
  "generate_internal_id ptype ts_str = ptype @ ''_'' @ ts_str"

text \<open>
  The submitted \<open>data\<close> is a dictionary, kept as the list of its items in insertion order.
  The code reads it in two ways: \<open>data[k]\<close>, which raises \<open>KeyError\<close> when the key is
  missing, and \<open>data.get(k)\<close>, which gives \<open>None\<close> then.
\<close>

datatype access = Item string | Get string

fun key_of :: "access \<Rightarrow> string" where
  "key_of (Item k) = k"
| "key_of (Get k) = k"

fun lookup :: "payload \<Rightarrow> access \<Rightarrow> exn + jvalue" where
  "lookup data (Item k) = (case map_of data k of None \<Rightarrow> Inl (KeyError k) | Some v \<Rightarrow> Inr v)"
| "lookup data (Get k) = (case map_of data k of None \<Rightarrow> Inr JNull | Some v \<Rightarrow> Inr v)"

text \<open>
  The dictionary display \<open>{k1: data[k1], k2: data.get(k2), ...}\<close>: the values are read
  from left to right, and the first missing key raises.
\<close>

fun build_dict :: "payload \<Rightarrow> access list \<Rightarrow> exn + payload" where
  "build_dict data [] = Inr []"
| "build_dict data (a # as) =
     (case lookup data a of
        Inl e \<Rightarrow> Inl e
      | Inr v \<Rightarrow>
          (case build_dict data as of
             Inl e \<Rightarrow> Inl e
           | Inr rest \<Rightarrow> Inr ((key_of a, v) # rest)))"

definition certificate_fields :: "access list" where
  "certificate_fields =
     [Item ''certificate_title'', Item ''issuer_name'', Item ''completion_date'',
      Item ''credential_type'', Item ''program_category'']"

definition job_history_fields :: "access list" where
  "job_history_fields =
     [Item ''job_title'', Item ''employer_name'', Item ''employment_type'',
      Item ''start_date'', Get ''end_date'', Item ''job_category'']"

definition skill_fields :: "access list" where
  "skill_fields = [Item ''skill_name'', Item ''skill_category'', Get ''proficiency_level'']"

definition milestone_fields :: "access list" where
  "milestone_fields =
     [Item ''milestone_type'', Item ''issuer_name'', Item ''date'', Item ''milestone_summary'']"

definition community_fields :: "access list" where
  "community_fields = [Item ''contribution_type'', Item ''platform_name'', Item ''date'']"

subsection \<open>The database\<close>

text \<open>
  A row of \<open>Document\<close>. The primary key, a fresh \<open>uuid4\<close>, is a number taken from a
  counter.
\<close>

record document =
  doc_id :: nat
  proof_type :: string
  internal_id :: string
  validation_hash :: string
  onchain_data :: payload
  user_id :: "string option"
  status :: string

text \<open>
  The tables: the documents, the typed sub-records (document id, model name, fields),
  the evidence files (document id, file, file type, description). \<open>clock\<close> counts the
  calls of \<open>datetime.now()\<close>.
\<close>

record storage =
  documents :: "document list"
  subrecords :: "(nat \<times> string \<times> payload) list"
  evidence :: "(nat \<times> uploaded_file \<times> string \<times> string) list"
  next_id :: nat
  clock :: nat

text \<open>
  What the code does not decide: the formatted time of the n-th call of
  \<open>datetime.now()\<close>; whether the creation of a sub-record of a given model with given
  fields raises, and with which message; whether the creation of an evidence file raises.
\<close>

record world =
  timestamp :: "nat \<Rightarrow> string"
  sub_error :: "string \<Rightarrow> payload \<Rightarrow> string option"
  file_error :: "uploaded_file \<Rightarrow> string option"

text \<open>\<open>document.delete()\<close>: the row, and by \<open>on_delete=CASCADE\<close> the rows that refer to it.\<close>

definition delete_document :: "document \<Rightarrow> storage \<Rightarrow> storage" where
  "delete_document d st =
     st\<lparr>documents := filter (\<lambda>x. doc_id x \<noteq> doc_id d) (documents st),
        subrecords := filter (\<lambda>r. fst r \<noteq> doc_id d) (subrecords st),
        evidence := filter (\<lambda>r. fst r \<noteq> doc_id d) (evidence st)\<rparr>"

text \<open>
  The common part of the five \<open>process_...\<close> methods, after \<open>onchain_data\<close> is built:
  hash, identifier, \<open>Document.objects.create\<close> (which raises when the identifier is
  taken: the column is unique), then the creation of the sub-record. The storage is
  returned also when an exception is raised: what was written stays written.
\<close>

definition create_records ::
  "world \<Rightarrow> string \<Rightarrow> string \<Rightarrow> payload \<Rightarrow> string option \<Rightarrow> storage
     \<Rightarrow> (exn + document) \<times> storage" where
  "create_records w ptype model onchain uid st =
     (let hash = generate_hash onchain;
          ident = generate_internal_id ptype (timestamp w (clock st));
          st1 = st\<lparr>clock := Suc (clock st)\<rparr>
      in if ident \<in> set (map internal_id (documents st1)) then
           (Inl (Exception ''UNIQUE constraint failed: documents_document.internal_id''), st1)
         else
           (let document =
                  \<lparr>doc_id = next_id st1, proof_type = ptype, internal_id = ident,
                   validation_hash = hash, onchain_data = onchain, user_id = uid,
                   status = ''pending''\<rparr>;
                st2 = st1\<lparr>documents := documents st1 @ [document],
                          next_id := Suc (next_id st1)\<rparr>
            in case sub_error w model onchain of
                 Some m \<Rightarrow> (Inl (Exception m), st2)
               | None \<Rightarrow>
                   (Inr document,
                    st2\<lparr>subrecords := subrecords st2 @ [(doc_id document, model, onchain)]\<rparr>)))"

definition process_fields ::
  "access list \<Rightarrow> string \<Rightarrow> string \<Rightarrow> world \<Rightarrow> payload \<Rightarrow> string option \<Rightarrow> storage
     \<Rightarrow> (exn + document) \<times> storage" where
  "process_fields fs ptype model w data uid st =
     (case build_dict data fs of
        Inl e \<Rightarrow> (Inl e, st)
      | Inr onchain \<Rightarrow> create_records w ptype model onchain uid st)"

definition process_certificate ::
  "world \<Rightarrow> payload \<Rightarrow> string option \<Rightarrow> storage \<Rightarrow> (exn + document) \<times> storage" where
  "process_certificate = process_fields certificate_fields ''certificate'' ''Certificate''"

definition process_job_history ::
  "world \<Rightarrow> payload \<Rightarrow> string option \<Rightarrow> storage \<Rightarrow> (exn + document) \<times> storage" where
  "process_job_history = process_fields job_history_fields ''job_history'' ''JobHistory''"

definition process_skill ::
  "world \<Rightarrow> payload \<Rightarrow> string option \<Rightarrow> storage \<Rightarrow> (exn + document) \<times> storage" where
  "process_skill = process_fields skill_fields ''skill'' ''Skill''"

definition process_milestone ::
  "world \<Rightarrow> payload \<Rightarrow> string option \<Rightarrow> storage \<Rightarrow> (exn + document) \<times> storage" where
  "process_milestone = process_fields milestone_fields ''milestone'' ''Milestone''"

definition process_community_contribution ::
  "world \<Rightarrow> payload \<Rightarrow> string option \<Rightarrow> storage \<Rightarrow> (exn + document) \<times> storage" where
  "process_community_contribution =
     process_fields community_fields ''community'' ''CommunityContribution''"

text \<open>
  The \<open>if\<close>/\<open>elif\<close> chain of \<open>process_document\<close>. The proof type is \<open>None\<close> when a batch
  item has no such key.
\<close>

definition dispatch ::
  "string option
     \<Rightarrow> (world \<Rightarrow> payload \<Rightarrow> string option \<Rightarrow> storage \<Rightarrow> (exn + document) \<times> storage) option" where
  "dispatch ptype =
     (if ptype = Some ''certificate'' then Some process_certificate
      else if ptype = Some ''job_history'' then Some process_job_history
      else if ptype = Some ''skill'' then Some process_skill
      else if ptype = Some ''milestone'' then Some process_milestone
      else if ptype = Some ''community'' then Some process_community_contribution
      else None)"

definition str_opt :: "string option \<Rightarrow> string" where
  "str_opt s = (case s of None \<Rightarrow> ''None'' | Some x \<Rightarrow> x)"

text \<open>\<open>file_obj.content_type or 'unknown'\<close>\<close>

definition file_type_of :: "uploaded_file \<Rightarrow> string" where
  "file_type_of f =
     (case content_type f of None \<Rightarrow> ''unknown'' | Some c \<Rightarrow> if c = [] then ''unknown'' else c)"

text \<open>
  The loop over the evidence files, with its own \<open>try\<close>: a file whose creation raises
  adds one message and the loop goes on.
\<close>

fun attach_files ::
  "world \<Rightarrow> document \<Rightarrow> string option \<Rightarrow> uploaded_file list \<Rightarrow> string list \<times> storage
     \<Rightarrow> string list \<times> storage" where
  "attach_files w document ptype [] acc = acc"
| "attach_files w document ptype (file_obj # rest) (errors, st) =
     attach_files w document ptype rest
       (case file_error w file_obj of
          Some e \<Rightarrow> (errors @ [''Error uploading file '' @ name file_obj @ '': '' @ e], st)
        | None \<Rightarrow>
            (errors,
             st\<lparr>evidence := evidence st @
                   [(doc_id document, file_obj, file_type_of file_obj,
                     ''Evidence for '' @ str_opt ptype)]\<rparr>))"

text \<open>
  The outer \<open>except\<close> clause, given the exception, the value of the local variable
  \<open>document\<close> at that point and the errors so far.
\<close>

definition except_handler ::
  "exn \<Rightarrow> document option \<Rightarrow> string list \<Rightarrow> storage
     \<Rightarrow> (document option \<times> string list) \<times> storage" where
  "except_handler e document errors st =
     ((None, errors @ [str_exn e]),
      (case document of None \<Rightarrow> st | Some d \<Rightarrow> delete_document d st))"

text \<open>
  \<open>process_document\<close>. When a \<open>process_...\<close> method raises, the assignment
  \<open>document = self.process_...(data, user_id)\<close> has not happened: the handler runs with
  \<open>document\<close> still \<open>None\<close>. An empty list of evidence files stands for \<open>None\<close> as well:
  the loop is skipped for both.
\<close>

definition process_document ::
  "world \<Rightarrow> string option \<Rightarrow> payload \<Rightarrow> string option \<Rightarrow> uploaded_file list \<Rightarrow> storage
     \<Rightarrow> (document option \<times> string list) \<times> storage" where
  "process_document w ptype data uid evidence_files st =
     (case dispatch ptype of
        None \<Rightarrow> ((None, [''Unknown proof type: '' @ str_opt ptype]), st)
      | Some process \<Rightarrow>
          (case process w data uid st of
             (Inl e, st1) \<Rightarrow> except_handler e None [] st1
           | (Inr document, st1) \<Rightarrow>
               (case attach_files w document ptype evidence_files ([], st1) of
                  (errors, st2) \<Rightarrow> ((Some document, errors), st2))))"

subsection \<open>Batches\<close>

text \<open>
  An item of a batch: \<open>doc_data.get('proof_type')\<close>, \<open>doc_data.get('data', {})\<close> and
  \<open>doc_data.get('evidence_files', [])\<close>; \<open>None\<close> where the key is missing.
\<close>

record batch_item =
  item_proof_type :: "string option"
  item_data :: "payload option"
  item_evidence_files :: "uploaded_file list option"

record batch_entry =
  index :: nat
  entry_proof_type :: "string option"
  entry_status :: string
  entry_document_id :: "nat option"
  entry_internal_id :: "string option"
  entry_errors :: "string list option"

record statistics =
  total_docs :: nat
  successful :: nat
  failed :: nat

definition batch_step ::
  "world \<Rightarrow> string option \<Rightarrow> nat \<Rightarrow> batch_item
     \<Rightarrow> batch_entry list \<times> statistics \<times> storage \<Rightarrow> batch_entry list \<times> statistics \<times> storage" where
  "batch_step w uid idx doc_data acc =
     (case acc of (results, stats, st) \<Rightarrow>
        (let ptype = item_proof_type doc_data;
             data = (case item_data doc_data of None \<Rightarrow> [] | Some d \<Rightarrow> d);
             evidence_files = (case item_evidence_files doc_data of None \<Rightarrow> [] | Some fs \<Rightarrow> fs)
         in case process_document w ptype data uid evidence_files st of
              ((Some document, errors), st1) \<Rightarrow>
                (results @
                   [\<lparr>index = idx, entry_proof_type = ptype, entry_status = ''success'',
                     entry_document_id = Some (doc_id document),
                     entry_internal_id = Some (internal_id document),
                     entry_errors = None\<rparr>],
                 stats\<lparr>successful := successful stats + 1\<rparr>, st1)
            | ((None, errors), st1) \<Rightarrow>
                (results @
                   [\<lparr>index = idx, entry_proof_type = ptype, entry_status = ''failed'',
                     entry_document_id = None, entry_internal_id = None,
                     entry_errors = Some errors\<rparr>],
                 stats\<lparr>failed := failed stats + 1\<rparr>, st1)))"

text \<open>The loop \<open>for idx, doc_data in enumerate(documents_data)\<close>.\<close>

fun batch_loop ::
  "world \<Rightarrow> string option \<Rightarrow> nat \<Rightarrow> batch_item list
     \<Rightarrow> batch_entry list \<times> statistics \<times> storage \<Rightarrow> batch_entry list \<times> statistics \<times> storage" where
  "batch_loop w uid idx [] acc = acc"
| "batch_loop w uid idx (doc_data # rest) acc =
     batch_loop w uid (Suc idx) rest (batch_step w uid idx doc_data acc)"

definition process_batch ::
  "world \<Rightarrow> batch_item list \<Rightarrow> string option \<Rightarrow> storage
     \<Rightarrow> batch_entry list \<times> statistics \<times> storage" where
  "process_batch w documents_data uid st =
     batch_loop w uid 0 documents_data
       ([], \<lparr>total_docs = length documents_data, successful = 0, failed = 0\<rparr>, st)"

subsection \<open>Notions used to state the properties of the pipeline\<close>

text \<open>The message that the loop over the evidence files records for a failing file.\<close>

definition upload_message :: "world \<Rightarrow> uploaded_file \<Rightarrow> string" where
  "upload_message w f =
     ''Error uploading file '' @ name f @ '': '' @ (case file_error w f of None \<Rightarrow> [] | Some e \<Rightarrow> e)"

definition data_of :: "batch_item \<Rightarrow> payload" where
  "data_of x = (case item_data x of None \<Rightarrow> [] | Some d \<Rightarrow> d)"

definition files_of :: "batch_item \<Rightarrow> uploaded_file list" where
  "files_of x = (case item_evidence_files x of None \<Rightarrow> [] | Some fs \<Rightarrow> fs)"

text \<open>
  The items of a batch run one after the other, in the order of the list: each one is
  given to \<open>process_document\<close> in the storage that the items before it have left, whatever
  their outcome was. The result is the list of the outcomes and the final storage.
\<close>

fun run_items ::
  "world \<Rightarrow> string option \<Rightarrow> batch_item list \<Rightarrow> storage
     \<Rightarrow> (document option \<times> string list) list \<times> storage" where
  "run_items w uid [] st = ([], st)"
| "run_items w uid (x # xs) st =
     (case process_document w (item_proof_type x) (data_of x) uid (files_of x) st of
        (r, st1) \<Rightarrow>
          (case run_items w uid xs st1 of
             (rs, st2) \<Rightarrow> (r # rs, st2)))"

text \<open>The result entry of the item at position \<open>idx\<close> with outcome \<open>r\<close>.\<close>

definition entry_of :: "nat \<Rightarrow> batch_item \<Rightarrow> document option \<times> string list \<Rightarrow> batch_entry" where
  "entry_of idx x r =
     (case fst r of
        Some document \<Rightarrow>
          \<lparr>index = idx, entry_proof_type = item_proof_type x, entry_status = ''success'',
            entry_document_id = Some (doc_id document),
            entry_internal_id = Some (internal_id document), entry_errors = None\<rparr>
      | None \<Rightarrow>
          \<lparr>index = idx, entry_proof_type = item_proof_type x, entry_status = ''failed'',
            entry_document_id = None, entry_internal_id = None,
            entry_errors = Some (snd r)\<rparr>)"

fun entries ::
  "nat \<Rightarrow> batch_item list \<Rightarrow> (document option \<times> string list) list \<Rightarrow> batch_entry list" where
  "entries idx (x # xs) (r # rs) = entry_of idx x r # entries (Suc idx) xs rs"
| "entries idx _ _ = []"

subsection \<open>A sample world\<close>

text \<open>
  Three ticks of the clock; the creation of a \<open>Certificate\<close> fails when its title is
  \<open>None\<close> (the column is not nullable); an evidence file named \<open>broken.pdf\<close> cannot be
  stored.
\<close>

definition sample_world :: world where
  "sample_world =
     \<lparr>timestamp = (\<lambda>n. if n = 0 then ''20231028120000000001''
                        else if n = 1 then ''20231028120000000002''
                        else if n = 2 then ''20231028120000000003''
                        else ''20231028120000999999''),
      sub_error = (\<lambda>model fields.
         if model = ''Certificate'' \<and> map_of fields ''certificate_title'' = Some JNull
         then Some ''NOT NULL constraint failed: documents_certificate.certificate_title''
         else None),
      file_error = (\<lambda>f. if name f = ''broken.pdf'' then Some ''disk full'' else None)\<rparr>"

definition empty_storage :: storage where
  "empty_storage = \<lparr>documents = [], subrecords = [], evidence = [], next_id = 0, clock = 0\<rparr>"

definition sample_certificate :: payload where
  "sample_certificate =
     [(''certificate_title'', JStr ''Responsive Web Design''),
      (''issuer_name'', JStr ''freeCodeCamp''),
      (''completion_date'', JStr ''2023-10''),
      (''credential_type'', JStr ''Course''),
      (''program_category'', JStr ''Web Development'')]"

definition sample_skill :: payload where
  "sample_skill = [(''skill_name'', JStr ''Rust''), (''skill_category'', JStr ''Programming'')]"

definition null_title_certificate :: payload where
  "null_title_certificate =
     [(''certificate_title'', JNull),
      (''issuer_name'', JStr ''freeCodeCamp''),
      (''completion_date'', JStr ''2023-10''),
      (''credential_type'', JStr ''Course''),
      (''program_category'', JStr ''Web Development'')]"

definition sample_batch :: "batch_item list" where
  "sample_batch =
     [\<lparr>item_proof_type = Some ''certificate'', item_data = Some sample_certificate,
       item_evidence_files = None\<rparr>,
      \<lparr>item_proof_type = Some ''diploma'', item_data = Some sample_certificate,
       item_evidence_files = Some []\<rparr>,
      \<lparr>item_proof_type = Some ''skill'', item_data = Some sample_skill,
       item_evidence_files = Some []\<rparr>]"

text \<open>The allow-list of a proof type: the keys that its \<open>process_...\<close> method reads.\<close>

definition allow_list :: "string option \<Rightarrow> access list" where
  "allow_list ptype =
     (if ptype = Some ''certificate'' then certificate_fields
      else if ptype = Some ''job_history'' then job_history_fields
      else if ptype = Some ''skill'' then skill_fields
      else if ptype = Some ''milestone'' then milestone_fields
      else if ptype = Some ''community'' then community_fields
      else [])"

text \<open>
  The sample certificate with its items in another order and a key that is not on the
  allow-list; and the sample certificate with another title.
\<close>

definition shuffled_certificate :: payload where
  "shuffled_certificate =
     [(''program_category'', JStr ''Web Development''),
      (''notes'', JStr ''scanned copy''),
      (''completion_date'', JStr ''2023-10''),
      (''certificate_title'', JStr ''Responsive Web Design''),
      (''credential_type'', JStr ''Course''),
      (''issuer_name'', JStr ''freeCodeCamp'')]"

definition titled_certificate :: "string \<Rightarrow> payload" where
  "titled_certificate title =
     [(''certificate_title'', JStr title),
      (''issuer_name'', JStr ''freeCodeCamp''),
      (''completion_date'', JStr ''2023-10''),
      (''credential_type'', JStr ''Course''),
      (''program_category'', JStr ''Web Development'')]"

section \<open>Properties\<close>

lemma required_fields_cases:
  "required_fields pt = Some req \<Longrightarrow>
     (pt = ''certificate'' \<and> req = [''certificate_title'', ''issuer_name'', ''completion_date'']) \<or>
     (pt = ''job_history'' \<and> req = [''job_title'', ''employer_name'', ''start_date''])"
  by (auto simp: required_fields_def split: if_splits)

lemma required_fields_distinct: "required_fields pt = Some req \<Longrightarrow> distinct req"
  by (drule required_fields_cases) auto

lemma found_count:
  assumes "distinct req"
  shows "length (filter (found d) req) = card {f \<in> set req. \<exists>v. d f = Some v \<and> v \<noteq> []}"
proof -
  have "{f \<in> set req. \<exists>v. d f = Some v \<and> v \<noteq> []} = set (filter (found d) req)"
    by (auto simp: found_def split: option.splits)
  then have "card {f \<in> set req. \<exists>v. d f = Some v \<and> v \<noteq> []} = card (set (filter (found d) req))"
    by (rule arg_cong)
  also have "\<dots> = length (filter (found d) req)"
    by (rule distinct_card) (simp add: assms)
  finally show ?thesis by (rule sym)
qed

subsection \<open>The confidence scorer\<close>

text \<open>
  C8. A proof type with no required-field set gets overall confidence 0 and an empty
  per-field map. Otherwise the overall confidence is the number of required fields
  present with a non-empty value, divided by the number of required fields, times 100.
  For a certificate where the title and the issuer are found and the completion date is
  not, that is (2/3) * 100, within 0.01 of 66.67.
\<close>

theorem confidence_overall:
  "(required_fields pt = None \<longrightarrow>
      get_extraction_confidence d pt = \<lparr>overall = 0, field_labels = Map.empty\<rparr>) \<and>
   (\<forall>req. required_fields pt = Some req \<longrightarrow>
      overall (get_extraction_confidence d pt) =
        real (card {f \<in> set req. \<exists>v. d f = Some v \<and> v \<noteq> []}) / real (length req) * 100) \<and>
   (found d ''certificate_title'' \<and> found d ''issuer_name'' \<and> \<not> found d ''completion_date'' \<longrightarrow>
      overall (get_extraction_confidence d ''certificate'') = (2 / 3) * 100 \<and>
      \<bar>overall (get_extraction_confidence d ''certificate'') - 66.67\<bar> < 0.01)"
proof (intro conjI impI allI)
  assume "required_fields pt = None"
  then show "get_extraction_confidence d pt = \<lparr>overall = 0, field_labels = Map.empty\<rparr>"
    by (simp add: get_extraction_confidence_def)
next
  fix req assume req: "required_fields pt = Some req"
  then have "distinct req" by (rule required_fields_distinct)
  then show "overall (get_extraction_confidence d pt) =
        real (card {f \<in> set req. \<exists>v. d f = Some v \<and> v \<noteq> []}) / real (length req) * 100"
    using req by (simp add: get_extraction_confidence_def Let_def found_count)
next
  assume h: "found d ''certificate_title'' \<and> found d ''issuer_name'' \<and> \<not> found d ''completion_date''"
  then have o: "overall (get_extraction_confidence d ''certificate'') = (2 / 3) * 100"
    by (simp add: get_extraction_confidence_def required_fields_def Let_def)
  show "overall (get_extraction_confidence d ''certificate'') = (2 / 3) * 100" by (rule o)
  show "\<bar>overall (get_extraction_confidence d ''certificate'') - 66.67\<bar> < 0.01"
    unfolding o by simp
qed

theorem confidence_overall_witness:
  "required_fields ''skill'' = None \<and>
   get_extraction_confidence [''skill_name'' \<mapsto> ''Rust''] ''skill'' = \<lparr>overall = 0, field_labels = Map.empty\<rparr> \<and>
   required_fields ''job_history'' = Some [''job_title'', ''employer_name'', ''start_date''] \<and>
   overall (get_extraction_confidence [''job_title'' \<mapsto> ''Engineer'', ''start_date'' \<mapsto> ''''] ''job_history'') = 100 / 3 \<and>
   found [''certificate_title'' \<mapsto> ''Responsive Web Design'', ''issuer_name'' \<mapsto> ''freeCodeCamp''] ''certificate_title'' \<and>
   found [''certificate_title'' \<mapsto> ''Responsive Web Design'', ''issuer_name'' \<mapsto> ''freeCodeCamp''] ''issuer_name'' \<and>
   \<not> found [''certificate_title'' \<mapsto> ''Responsive Web Design'', ''issuer_name'' \<mapsto> ''freeCodeCamp''] ''completion_date'' \<and>
   overall (get_extraction_confidence
      [''certificate_title'' \<mapsto> ''Responsive Web Design'', ''issuer_name'' \<mapsto> ''freeCodeCamp''] ''certificate'') = 200 / 3"
proof -
  have a: "required_fields ''skill'' = None" by (simp add: required_fields_def)
  have b: "required_fields ''job_history'' = Some [''job_title'', ''employer_name'', ''start_date'']"
    by (simp add: required_fields_def)
  have c: "card {f \<in> set [''job_title'', ''employer_name'', ''start_date''].
              \<exists>v. [''job_title'' \<mapsto> ''Engineer'', ''start_date'' \<mapsto> ''''] f = Some v \<and> v \<noteq> []} = 1"
  proof -
    have "{f \<in> set [''job_title'', ''employer_name'', ''start_date''].
              \<exists>v. [''job_title'' \<mapsto> ''Engineer'', ''start_date'' \<mapsto> ''''] f = Some v \<and> v \<noteq> []} = {''job_title''}"
      by auto
    then show ?thesis by simp
  qed
  have f: "found [''certificate_title'' \<mapsto> ''Responsive Web Design'', ''issuer_name'' \<mapsto> ''freeCodeCamp''] ''certificate_title'' \<and>
   found [''certificate_title'' \<mapsto> ''Responsive Web Design'', ''issuer_name'' \<mapsto> ''freeCodeCamp''] ''issuer_name'' \<and>
   \<not> found [''certificate_title'' \<mapsto> ''Responsive Web Design'', ''issuer_name'' \<mapsto> ''freeCodeCamp''] ''completion_date''"
    by (simp add: found_def)
  show ?thesis
    using confidence_overall [of "''skill''" "[''skill_name'' \<mapsto> ''Rust'']"]
      confidence_overall [of "''job_history''" "[''job_title'' \<mapsto> ''Engineer'', ''start_date'' \<mapsto> '''']"]
      confidence_overall [of _ "[''certificate_title'' \<mapsto> ''Responsive Web Design'', ''issuer_name'' \<mapsto> ''freeCodeCamp'']"]
      a b c f
    by simp
qed

text \<open>
  C9 as stated fails: a field extracted with an empty value receives no label at all
  (the branch \<open>elif value\<close> guards the label \<open>low\<close>).
\<close>

theorem field_label_empty_value_counterexample:
  "[''issuer_name'' \<mapsto> ''''] ''issuer_name'' = Some '''' \<and>
   required_fields ''certificate'' \<noteq> None \<and>
   field_labels (get_extraction_confidence [''issuer_name'' \<mapsto> ''''] ''certificate'')
     ''issuer_name'' = None \<and>
   field_labels (get_extraction_confidence [''issuer_name'' \<mapsto> ''''] ''certificate'')
     ''issuer_name'' \<noteq> Some ''low''"
  by (simp add: get_extraction_confidence_def required_fields_def label_of_def)

text \<open>
  C9, amended. For a proof type with a required-field set, every extracted field with a
  non-empty value (required or not) is labelled: \<open>high\<close> when the value is longer than 3
  characters, \<open>low\<close> otherwise. A field whose value is empty, or that was not extracted,
  has no label.
\<close>

theorem field_labels_of_values:
  assumes "required_fields pt = Some req"
  shows "(d f = Some v \<and> v \<noteq> [] \<longrightarrow>
            field_labels (get_extraction_confidence d pt) f =
              Some (if length v > 3 then ''high'' else ''low'')) \<and>
         (d f = Some [] \<or> d f = None \<longrightarrow>
            field_labels (get_extraction_confidence d pt) f = None)"
  using assms by (auto simp: get_extraction_confidence_def Let_def label_of_def)

theorem field_labels_of_values_witness:
  "required_fields ''certificate'' =
     Some [''certificate_title'', ''issuer_name'', ''completion_date''] \<and>
   field_labels (get_extraction_confidence
      [''certificate_title'' \<mapsto> ''Rust'', ''note'' \<mapsto> ''abc'', ''issuer_name'' \<mapsto> ''''] ''certificate'')
      ''certificate_title'' = Some ''high'' \<and>
   field_labels (get_extraction_confidence
      [''certificate_title'' \<mapsto> ''Rust'', ''note'' \<mapsto> ''abc'', ''issuer_name'' \<mapsto> ''''] ''certificate'')
      ''note'' = Some ''low'' \<and>
   field_labels (get_extraction_confidence
      [''certificate_title'' \<mapsto> ''Rust'', ''note'' \<mapsto> ''abc'', ''issuer_name'' \<mapsto> ''''] ''certificate'')
      ''issuer_name'' = None"
proof -
  have r: "required_fields ''certificate'' =
     Some [''certificate_title'', ''issuer_name'', ''completion_date'']"
    by (simp add: required_fields_def)
  show ?thesis
    using r
      field_labels_of_values [OF r,
        of "[''certificate_title'' \<mapsto> ''Rust'', ''note'' \<mapsto> ''abc'', ''issuer_name'' \<mapsto> '''']"
           "''certificate_title''" "''Rust''"]
      field_labels_of_values [OF r,
        of "[''certificate_title'' \<mapsto> ''Rust'', ''note'' \<mapsto> ''abc'', ''issuer_name'' \<mapsto> '''']"
           "''note''" "''abc''"]
      field_labels_of_values [OF r,
        of "[''certificate_title'' \<mapsto> ''Rust'', ''note'' \<mapsto> ''abc'', ''issuer_name'' \<mapsto> '''']"
           "''issuer_name''" "[]"]
    by simp
qed

subsection \<open>The extraction engine\<close>

lemma extract_from_file_returns:
  "\<exists>d t. extract_from_file lib structured f pt = Inr (d, t)"
  by (auto simp: extract_from_file_def Let_def map_sum_def split: sum.splits option.splits)

lemma pdf_not_image: "''pdf'' \<notin> set image_extensions"
  by (simp add: image_extensions_def)

text \<open>
  C5. \<open>extract_from_file\<close> never raises. A file whose extension is neither \<open>pdf\<close> nor
  an image extension gives no fields and the message \<open>Unsupported file type\<close>. An
  exception of the PDF or OCR library (or a missing library) is caught and gives no
  fields and a message that starts with \<open>Error extracting data: \<close>.
\<close>

theorem extract_from_file_soft_failure:
  "(\<exists>d t. extract_from_file lib structured f pt = Inr (d, t)) \<and>
   (file_extension f \<noteq> ''pdf'' \<and> file_extension f \<notin> set image_extensions \<longrightarrow>
      extract_from_file lib structured f pt = Inr (Map.empty, ''Unsupported file type'')) \<and>
   (\<forall>e. file_extension f = ''pdf'' \<and> PyPDF2 lib \<and> pdf_pages lib f = Inl e \<longrightarrow>
      extract_from_file lib structured f pt =
        Inr (Map.empty, ''Error extracting data: PDF extraction failed: '' @ e)) \<and>
   (\<forall>e. file_extension f \<in> set image_extensions \<and> Image_pytesseract lib \<and>
        image_to_string lib f = Inl e \<longrightarrow>
      extract_from_file lib structured f pt =
        Inr (Map.empty, ''Error extracting data: Image extraction failed: '' @ e)) \<and>
   (\<forall>e. (file_extension f = ''pdf'' \<and> extract_from_pdf lib f = Inl e) \<or>
        (file_extension f \<in> set image_extensions \<and> extract_from_image lib f = Inl e) \<longrightarrow>
      extract_from_file lib structured f pt =
        Inr (Map.empty, ''Error extracting data: '' @ str_exn e))"
proof (intro conjI allI impI)
  show "\<exists>d t. extract_from_file lib structured f pt = Inr (d, t)"
    by (rule extract_from_file_returns)
next
  assume "file_extension f \<noteq> ''pdf'' \<and> file_extension f \<notin> set image_extensions"
  then show "extract_from_file lib structured f pt = Inr (Map.empty, ''Unsupported file type'')"
    by (simp add: extract_from_file_def)
next
  fix e assume "file_extension f = ''pdf'' \<and> PyPDF2 lib \<and> pdf_pages lib f = Inl e"
  then show "extract_from_file lib structured f pt =
        Inr (Map.empty, ''Error extracting data: PDF extraction failed: '' @ e)"
    by (simp add: extract_from_file_def extract_from_pdf_def)
next
  fix e assume "file_extension f \<in> set image_extensions \<and> Image_pytesseract lib \<and>
        image_to_string lib f = Inl e"
  then show "extract_from_file lib structured f pt =
        Inr (Map.empty, ''Error extracting data: Image extraction failed: '' @ e)"
    using pdf_not_image by (auto simp: extract_from_file_def extract_from_image_def)
next
  fix e assume "(file_extension f = ''pdf'' \<and> extract_from_pdf lib f = Inl e) \<or>
        (file_extension f \<in> set image_extensions \<and> extract_from_image lib f = Inl e)"
  then show "extract_from_file lib structured f pt =
        Inr (Map.empty, ''Error extracting data: '' @ str_exn e)"
    using pdf_not_image by (auto simp: extract_from_file_def)
qed

lemma file_extension_exe:
  "file_extension \<lparr>name = ''setup.EXE'', content_type = None\<rparr> = ''exe''"
  by code_simp

lemma file_extension_pdf:
  "file_extension \<lparr>name = ''scan.v2.PDF'', content_type = None\<rparr> = ''pdf''"
  by code_simp

lemma file_extension_png:
  "file_extension \<lparr>name = ''scan.png'', content_type = None\<rparr> = ''png''"
  by code_simp

theorem extract_from_file_soft_failure_witness:
  "extract_from_file
      \<lparr>PyPDF2 = True, Image_pytesseract = True,
        pdf_pages = (\<lambda>_. Inl ''EOF marker not found''),
        image_to_string = (\<lambda>_. Inl ''cannot identify image file'')\<rparr>
      (\<lambda>_ _. Inr Map.empty) \<lparr>name = ''setup.EXE'', content_type = None\<rparr> ''certificate''
     = Inr (Map.empty, ''Unsupported file type'') \<and>
   extract_from_file
      \<lparr>PyPDF2 = True, Image_pytesseract = True,
        pdf_pages = (\<lambda>_. Inl ''EOF marker not found''),
        image_to_string = (\<lambda>_. Inl ''cannot identify image file'')\<rparr>
      (\<lambda>_ _. Inr Map.empty) \<lparr>name = ''scan.v2.PDF'', content_type = None\<rparr> ''certificate''
     = Inr (Map.empty, ''Error extracting data: PDF extraction failed: EOF marker not found'') \<and>
   extract_from_file
      \<lparr>PyPDF2 = True, Image_pytesseract = True,
        pdf_pages = (\<lambda>_. Inl ''EOF marker not found''),
        image_to_string = (\<lambda>_. Inl ''cannot identify image file'')\<rparr>
      (\<lambda>_ _. Inr Map.empty) \<lparr>name = ''scan.png'', content_type = None\<rparr> ''certificate''
     = Inr (Map.empty,
            ''Error extracting data: Image extraction failed: cannot identify image file'')"
  using
    extract_from_file_soft_failure [of
      "\<lparr>PyPDF2 = True, Image_pytesseract = True,
        pdf_pages = (\<lambda>_. Inl ''EOF marker not found''),
        image_to_string = (\<lambda>_. Inl ''cannot identify image file'')\<rparr>"
      "(\<lambda>_ _. Inr Map.empty)" "\<lparr>name = ''setup.EXE'', content_type = None\<rparr>" "''certificate''"]
    extract_from_file_soft_failure [of
      "\<lparr>PyPDF2 = True, Image_pytesseract = True,
        pdf_pages = (\<lambda>_. Inl ''EOF marker not found''),
        image_to_string = (\<lambda>_. Inl ''cannot identify image file'')\<rparr>"
      "(\<lambda>_ _. Inr Map.empty)" "\<lparr>name = ''scan.v2.PDF'', content_type = None\<rparr>" "''certificate''"]
    extract_from_file_soft_failure [of
      "\<lparr>PyPDF2 = True, Image_pytesseract = True,
        pdf_pages = (\<lambda>_. Inl ''EOF marker not found''),
        image_to_string = (\<lambda>_. Inl ''cannot identify image file'')\<rparr>"
      "(\<lambda>_ _. Inr Map.empty)" "\<lparr>name = ''scan.png'', content_type = None\<rparr>" "''certificate''"]
  by (simp add: file_extension_exe file_extension_pdf file_extension_png image_extensions_def)

lemma str_strip_replicate:
  "\<not> isspace c \<Longrightarrow> str_strip (replicate n c) = replicate n c"
  by (simp add: str_strip_def)

text \<open>
  C10. \<open>extract_and_create_document\<close> returns, and its \<open>raw_text\<close> entry is \<open>None\<close> when
  the text that \<open>extract_from_file\<close> produced is empty and the first 500 characters of
  that text otherwise, however long the text is.
\<close>

theorem raw_text_truncated:
  "\<exists>r d t. extract_from_file lib structured f pt = Inr (d, t) \<and>
     extract_and_create_document lib structured f pt u = Inr r \<and>
     raw_text r = (if t = [] then None else Some (take 500 t)) \<and>
     (\<forall>x. raw_text r = Some x \<longrightarrow> length x \<le> 500 \<and> x = take (length x) t)"
proof -
  obtain d t where e: "extract_from_file lib structured f pt = Inr (d, t)"
    using extract_from_file_returns by blast
  then obtain r where r: "extract_and_create_document lib structured f pt u = Inr r"
    and rt: "raw_text r = (if t = [] then None else Some (take 500 t))"
    by (simp add: extract_and_create_document_def Let_def)
  have "\<forall>x. raw_text r = Some x \<longrightarrow> length x \<le> 500 \<and> x = take (length x) t"
    using rt by (auto split: if_splits simp: min_def)
  with e r rt show ?thesis by blast
qed

theorem raw_text_truncated_witness:
  "\<exists>r. extract_and_create_document
      \<lparr>PyPDF2 = True, Image_pytesseract = True,
        pdf_pages = (\<lambda>_. Inr []),
        image_to_string = (\<lambda>_. Inr (replicate 600 CHR ''a''))\<rparr>
      (\<lambda>_ _. Inr Map.empty) \<lparr>name = ''scan.png'', content_type = None\<rparr> ''certificate'' None
     = Inr r \<and> raw_text r = Some (replicate 500 CHR ''a'')"
proof -
  have t: "extract_from_file
      \<lparr>PyPDF2 = True, Image_pytesseract = True,
        pdf_pages = (\<lambda>_. Inr []),
        image_to_string = (\<lambda>_. Inr (replicate 600 CHR ''a''))\<rparr>
      (\<lambda>_ _. Inr Map.empty) \<lparr>name = ''scan.png'', content_type = None\<rparr> ''certificate''
     = Inr (Map.empty, replicate 600 CHR ''a'')"
    by (simp add: extract_from_file_def file_extension_png image_extensions_def
        extract_from_image_def str_strip_replicate isspace_def)
  show ?thesis
    using raw_text_truncated [of
      "\<lparr>PyPDF2 = True, Image_pytesseract = True,
        pdf_pages = (\<lambda>_. Inr []),
        image_to_string = (\<lambda>_. Inr (replicate 600 CHR ''a''))\<rparr>"
      "(\<lambda>_ _. Inr Map.empty)" "\<lparr>name = ''scan.png'', content_type = None\<rparr>" "''certificate''" None]
    unfolding t by auto
qed

subsection \<open>The processing pipeline\<close>

lemma attach_files_errors:
  "fst (attach_files w d pt fs (errs, st)) =
     errs @ map (upload_message w) (filter (\<lambda>f. file_error w f \<noteq> None) fs)"
  by (induction fs arbitrary: errs st) (auto simp: upload_message_def split: option.splits)

lemma attach_files_documents:
  "documents (snd (attach_files w d pt fs (errs, st))) = documents st"
  by (induction fs arbitrary: errs st) (auto split: option.splits)

lemma attach_files_subrecords:
  "subrecords (snd (attach_files w d pt fs (errs, st))) = subrecords st"
  by (induction fs arbitrary: errs st) (auto split: option.splits)

lemma attach_files_evidence:
  "evidence (snd (attach_files w d pt fs (errs, st))) =
     evidence st @
       map (\<lambda>f. (doc_id d, f, file_type_of f, ''Evidence for '' @ str_opt pt))
         (filter (\<lambda>f. file_error w f = None) fs)"
  by (induction fs arbitrary: errs st) (auto split: option.splits)

lemma create_records_Inr:
  assumes "create_records w pt model oc uid st = (Inr d, st1)"
  shows "d \<in> set (documents st1) \<and> (doc_id d, model, oc) \<in> set (subrecords st1) \<and>
         onchain_data d = oc \<and> status d = ''pending'' \<and> proof_type d = pt \<and>
         validation_hash d = generate_hash oc \<and> sub_error w model oc = None"
  using assms
  by (auto simp: create_records_def Let_def split: if_splits option.splits)

lemma dispatch_Some:
  assumes "dispatch ptype = Some process"
  shows "\<exists>fs pt model. process = process_fields fs pt model \<and> ptype = Some pt"
  using assms
  by (auto simp: dispatch_def process_certificate_def process_job_history_def
      process_skill_def process_milestone_def process_community_contribution_def
      split: if_splits)

lemma process_fields_Inr:
  assumes "process_fields fs pt model w data uid st = (Inr d, st1)"
  shows "d \<in> set (documents st1) \<and> (doc_id d, model, onchain_data d) \<in> set (subrecords st1) \<and>
         build_dict data fs = Inr (onchain_data d) \<and> status d = ''pending'' \<and>
         validation_hash d = generate_hash (onchain_data d)"
  using assms create_records_Inr
  by (fastforce simp: process_fields_def split: sum.splits)

text \<open>
  C4. When the primary record and the sub-record have been created, a failure to attach
  evidence files deletes neither: \<open>process_document\<close> returns the created record, the
  error list holds exactly one message for each failing file, in order, and the document
  and its sub-record are in the storage afterwards.
\<close>

theorem evidence_failure_keeps_record:
  assumes "dispatch ptype = Some process"
    and "process w data uid st = (Inr document, st1)"
  shows "\<exists>st2. process_document w ptype data uid files st =
             ((Some document,
               map (upload_message w) (filter (\<lambda>f. file_error w f \<noteq> None) files)), st2) \<and>
           documents st2 = documents st1 \<and> subrecords st2 = subrecords st1 \<and>
           document \<in> set (documents st2) \<and>
           (\<exists>model. (doc_id document, model, onchain_data document) \<in> set (subrecords st2)) \<and>
           length (snd (fst (process_document w ptype data uid files st))) =
             length (filter (\<lambda>f. file_error w f \<noteq> None) files)"
proof -
  obtain errors st2 where a: "attach_files w document ptype files ([], st1) = (errors, st2)"
    by (cases "attach_files w document ptype files ([], st1)") auto
  have e: "errors = map (upload_message w) (filter (\<lambda>f. file_error w f \<noteq> None) files)"
    using attach_files_errors [of w document ptype files "[]" st1] a by simp
  have d: "documents st2 = documents st1"
    using attach_files_documents [of w document ptype files "[]" st1] a by simp
  have s: "subrecords st2 = subrecords st1"
    using attach_files_subrecords [of w document ptype files "[]" st1] a by simp
  obtain fs pt model where p: "process = process_fields fs pt model"
    using dispatch_Some [OF assms(1)] by blast
  have m: "document \<in> set (documents st1) \<and>
           (doc_id document, model, onchain_data document) \<in> set (subrecords st1)"
    using process_fields_Inr assms(2) unfolding p by blast
  have r: "process_document w ptype data uid files st = ((Some document, errors), st2)"
    using assms a by (simp add: process_document_def)
  show ?thesis
    using r e d s m by auto
qed

lemma sample_certificate_created:
  "process_certificate sample_world sample_certificate (Some ''u1'') empty_storage =
     (Inr \<lparr>doc_id = 0, proof_type = ''certificate'',
           internal_id = ''certificate_20231028120000000001'',
           validation_hash = generate_hash sample_certificate,
           onchain_data = sample_certificate, user_id = Some ''u1'', status = ''pending''\<rparr>,
      \<lparr>documents =
         [\<lparr>doc_id = 0, proof_type = ''certificate'',
           internal_id = ''certificate_20231028120000000001'',
           validation_hash = generate_hash sample_certificate,
           onchain_data = sample_certificate, user_id = Some ''u1'', status = ''pending''\<rparr>],
       subrecords = [(0, ''Certificate'', sample_certificate)],
       evidence = [], next_id = 1, clock = 1\<rparr>)"
  by (simp add: process_certificate_def process_fields_def certificate_fields_def
      sample_certificate_def create_records_def sample_world_def empty_storage_def
      generate_internal_id_def Let_def)

theorem evidence_failure_keeps_record_witness:
  "fst (process_document sample_world (Some ''certificate'') sample_certificate (Some ''u1'')
      [\<lparr>name = ''scan.png'', content_type = Some ''image/png''\<rparr>,
       \<lparr>name = ''broken.pdf'', content_type = None\<rparr>] empty_storage) =
     (Some \<lparr>doc_id = 0, proof_type = ''certificate'',
           internal_id = ''certificate_20231028120000000001'',
           validation_hash = generate_hash sample_certificate,
           onchain_data = sample_certificate, user_id = Some ''u1'', status = ''pending''\<rparr>,
      [''Error uploading file broken.pdf: disk full''])"
proof -
  have d: "dispatch (Some ''certificate'') = Some process_certificate"
    by (simp add: dispatch_def)
  have f: "filter (\<lambda>f. file_error sample_world f \<noteq> None)
       [\<lparr>name = ''scan.png'', content_type = Some ''image/png''\<rparr>,
        \<lparr>name = ''broken.pdf'', content_type = None\<rparr>] =
       [\<lparr>name = ''broken.pdf'', content_type = None\<rparr>]"
    by (simp add: sample_world_def)
  have m: "upload_message sample_world \<lparr>name = ''broken.pdf'', content_type = None\<rparr> =
      ''Error uploading file broken.pdf: disk full''"
    by (simp add: upload_message_def sample_world_def)
  show ?thesis
    using evidence_failure_keeps_record [OF d sample_certificate_created,
        of "[\<lparr>name = ''scan.png'', content_type = Some ''image/png''\<rparr>,
             \<lparr>name = ''broken.pdf'', content_type = None\<rparr>]"]
    unfolding f using m by auto
qed

lemma create_records_sub_failure:
  assumes "sub_error w model oc = Some m"
    and "generate_internal_id pt (timestamp w (clock st)) \<notin> set (map internal_id (documents st))"
  shows "fst (create_records w pt model oc uid st) = Inl (Exception m) \<and>
         documents (snd (create_records w pt model oc uid st)) =
           documents st @
             [\<lparr>doc_id = next_id st, proof_type = pt,
               internal_id = generate_internal_id pt (timestamp w (clock st)),
               validation_hash = generate_hash oc, onchain_data = oc, user_id = uid,
               status = ''pending''\<rparr>]"
  using assms by (simp add: create_records_def Let_def)

text \<open>
  C1 does not hold of the code. The sample certificate with a title \<open>None\<close> passes
  \<open>Document.objects.create\<close> and fails in \<open>Certificate.objects.create\<close>. The call returns
  \<open>None\<close> and one error message, as claimed, but the primary record is still in the
  storage: the handler's \<open>document.delete()\<close> is guarded by \<open>if document\<close>, and
  \<open>document\<close> is \<open>None\<close> there.
\<close>

theorem sub_record_failure_leaves_primary_record:
  "process_document sample_world (Some ''certificate'') null_title_certificate (Some ''u1'') []
      empty_storage =
     ((None, [''NOT NULL constraint failed: documents_certificate.certificate_title'']),
      \<lparr>documents =
         [\<lparr>doc_id = 0, proof_type = ''certificate'',
           internal_id = ''certificate_20231028120000000001'',
           validation_hash = generate_hash null_title_certificate,
           onchain_data = null_title_certificate, user_id = Some ''u1'', status = ''pending''\<rparr>],
       subrecords = [], evidence = [], next_id = 1, clock = 1\<rparr>)"
  by (simp add: process_document_def dispatch_def process_certificate_def process_fields_def
      certificate_fields_def null_title_certificate_def create_records_def sample_world_def
      empty_storage_def generate_internal_id_def Let_def except_handler_def)

subsection \<open>Batches\<close>

lemma run_items_length: "length (fst (run_items w uid xs st)) = length xs"
  by (induction xs arbitrary: st) (simp_all add: case_prod_unfold)

lemma batch_loop_run:
  "batch_loop w uid idx xs (res, stats, st) =
     (res @ entries idx xs (fst (run_items w uid xs st)),
      stats\<lparr>successful := successful stats +
                length (filter (\<lambda>r. fst r \<noteq> None) (fst (run_items w uid xs st))),
            failed := failed stats +
                length (filter (\<lambda>r. fst r = None) (fst (run_items w uid xs st)))\<rparr>,
      snd (run_items w uid xs st))"
proof (induction xs arbitrary: idx res stats st)
  case Nil
  then show ?case by simp
next
  case (Cons x xs)
  obtain doc errs st1 where
    p: "process_document w (item_proof_type x) (data_of x) uid (files_of x) st = ((doc, errs), st1)"
    by (metis surj_pair)
  show ?case
  proof (cases doc)
    case None
    with p Cons.IH show ?thesis
      by (simp add: batch_step_def entry_of_def data_of_def files_of_def split: prod.splits)
  next
    case (Some d)
    with p Cons.IH show ?thesis
      by (simp add: batch_step_def entry_of_def data_of_def files_of_def split: prod.splits)
  qed
qed

lemma entries_length: "length rs = length xs \<Longrightarrow> length (entries idx xs rs) = length xs"
proof (induction xs arbitrary: idx rs)
  case Nil
  then show ?case by simp
next
  case (Cons x xs)
  then show ?case by (cases rs) auto
qed

lemma entries_nth:
  "length rs = length xs \<Longrightarrow> i < length xs \<Longrightarrow>
     entries idx xs rs ! i = entry_of (idx + i) (xs ! i) (rs ! i)"
proof (induction xs arbitrary: idx rs i)
  case Nil
  then show ?case by simp
next
  case (Cons x xs)
  then obtain r rs' where rs: "rs = r # rs'" by (cases rs) auto
  show ?case
  proof (cases i)
    case 0
    then show ?thesis by (simp add: rs)
  next
    case (Suc j)
    with Cons rs show ?thesis by simp
  qed
qed

lemma unknown_type_fails:
  "dispatch ptype = None \<Longrightarrow>
     process_document w ptype data uid fs st =
       ((None, [''Unknown proof type: '' @ str_opt ptype]), st)"
  by (simp add: process_document_def)

lemma run_items_unknown:
  "i < length xs \<Longrightarrow> dispatch (item_proof_type (xs ! i)) = None \<Longrightarrow>
     fst (fst (run_items w uid xs st) ! i) = None"
proof (induction xs arbitrary: i st)
  case Nil
  then show ?case by simp
next
  case (Cons x xs)
  show ?case
  proof (cases i)
    case 0
    with Cons.prems show ?thesis
      by (simp add: unknown_type_fails split: prod.splits)
  next
    case (Suc j)
    with Cons show ?thesis
      by (simp add: case_prod_unfold)
  qed
qed

lemma entry_of_fields:
  "index (entry_of i x r) = i \<and> entry_proof_type (entry_of i x r) = item_proof_type x \<and>
   entry_status (entry_of i x r) = (if fst r = None then ''failed'' else ''success'')"
  by (simp add: entry_of_def split: option.splits)

text \<open>
  C3. \<open>process_batch\<close> runs the items in the order of the list, each in the storage left by
  the items before it and whatever their outcome (\<open>run_items\<close>). The result has one entry
  per item, in order, with the item's position and declared type; the statistics count
  the items, the items that returned a record and the items that returned \<open>None\<close>. A
  batch of three whose second item has an unknown type and whose other items return a
  record gives total 3, successful 2, failed 1.
\<close>

theorem process_batch_tally:
  assumes "run_items w uid items st = (rs, st')"
  shows "process_batch w items uid st =
           (entries 0 items rs,
            \<lparr>total_docs = length items,
              successful = length (filter (\<lambda>r. fst r \<noteq> None) rs),
              failed = length (filter (\<lambda>r. fst r = None) rs)\<rparr>,
            st') \<and>
         length rs = length items \<and>
         length (entries 0 items rs) = length items \<and>
         (\<forall>i < length items.
            index (entries 0 items rs ! i) = i \<and>
            entry_proof_type (entries 0 items rs ! i) = item_proof_type (items ! i) \<and>
            entry_status (entries 0 items rs ! i) =
              (if fst (rs ! i) = None then ''failed'' else ''success'')) \<and>
         length (filter (\<lambda>r. fst r \<noteq> None) rs) + length (filter (\<lambda>r. fst r = None) rs) =
           length items \<and>
         (length items = 3 \<and> fst (rs ! 0) \<noteq> None \<and>
          dispatch (item_proof_type (items ! 1)) = None \<and> fst (rs ! 2) \<noteq> None \<longrightarrow>
            fst (snd (process_batch w items uid st)) =
              \<lparr>total_docs = 3, successful = 2, failed = 1\<rparr>)"
proof -
  have rs: "fst (run_items w uid items st) = rs" and st': "snd (run_items w uid items st) = st'"
    using assms by simp_all
  have len: "length rs = length items"
    using run_items_length [of w uid items st] rs by simp
  have pb: "process_batch w items uid st =
           (entries 0 items rs,
            \<lparr>total_docs = length items,
              successful = length (filter (\<lambda>r. fst r \<noteq> None) rs),
              failed = length (filter (\<lambda>r. fst r = None) rs)\<rparr>,
            st')"
    by (simp add: process_batch_def batch_loop_run rs st')
  have nth: "\<forall>i < length items.
            index (entries 0 items rs ! i) = i \<and>
            entry_proof_type (entries 0 items rs ! i) = item_proof_type (items ! i) \<and>
            entry_status (entries 0 items rs ! i) =
              (if fst (rs ! i) = None then ''failed'' else ''success'')"
    using entries_nth [OF len, of _ 0] entry_of_fields by simp
  have sum: "length (filter (\<lambda>r. fst r \<noteq> None) rs) + length (filter (\<lambda>r. fst r = None) rs) =
           length items"
    using sum_length_filter_compl [of "\<lambda>r. fst r \<noteq> None" rs] len by simp
  have three: "fst (snd (process_batch w items uid st)) =
              \<lparr>total_docs = 3, successful = 2, failed = 1\<rparr>"
    if h: "length items = 3 \<and> fst (rs ! 0) \<noteq> None \<and>
          dispatch (item_proof_type (items ! 1)) = None \<and> fst (rs ! 2) \<noteq> None"
  proof -
    from h len obtain r0 r1 r2 where r: "rs = [r0, r1, r2]"
      by (metis (no_types, opaque_lifting) length_0_conv length_Suc_conv numeral_3_eq_3)
    have "fst (rs ! 1) = None"
      using run_items_unknown [of 1 items w uid st] h rs by simp
    with h r show ?thesis by (simp add: pb)
  qed
  show ?thesis
    using pb len entries_length [OF len] nth sum three by blast
qed

lemma sample_run:
  "fst (run_items sample_world (Some ''u1'') sample_batch empty_storage) =
     [(Some \<lparr>doc_id = 0, proof_type = ''certificate'',
             internal_id = ''certificate_20231028120000000001'',
             validation_hash = generate_hash sample_certificate,
             onchain_data = sample_certificate, user_id = Some ''u1'', status = ''pending''\<rparr>, []),
      (None, [''Unknown proof type: diploma'']),
      (Some \<lparr>doc_id = 1, proof_type = ''skill'',
             internal_id = ''skill_20231028120000000002'',
             validation_hash =
               generate_hash [(''skill_name'', JStr ''Rust''),
                              (''skill_category'', JStr ''Programming''),
                              (''proficiency_level'', JNull)],
             onchain_data = [(''skill_name'', JStr ''Rust''),
                             (''skill_category'', JStr ''Programming''),
                             (''proficiency_level'', JNull)],
             user_id = Some ''u1'', status = ''pending''\<rparr>, [])]"
  by (simp add: sample_batch_def data_of_def files_of_def process_document_def dispatch_def
      process_certificate_def process_skill_def process_fields_def certificate_fields_def
      skill_fields_def sample_certificate_def sample_skill_def create_records_def
      sample_world_def empty_storage_def generate_internal_id_def Let_def str_opt_def)

theorem process_batch_tally_witness:
  "fst (snd (process_batch sample_world sample_batch (Some ''u1'') empty_storage)) =
     \<lparr>total_docs = 3, successful = 2, failed = 1\<rparr> \<and>
   map index (fst (process_batch sample_world sample_batch (Some ''u1'') empty_storage)) =
     [0, 1, 2] \<and>
   map entry_status (fst (process_batch sample_world sample_batch (Some ''u1'') empty_storage)) =
     [''success'', ''failed'', ''success''] \<and>
   map entry_proof_type (fst (process_batch sample_world sample_batch (Some ''u1'') empty_storage)) =
     [Some ''certificate'', Some ''diploma'', Some ''skill'']"
proof -
  obtain rs st' where r: "run_items sample_world (Some ''u1'') sample_batch empty_storage = (rs, st')"
    by (metis surj_pair)
  have rs: "rs =
     [(Some \<lparr>doc_id = 0, proof_type = ''certificate'',
             internal_id = ''certificate_20231028120000000001'',
             validation_hash = generate_hash sample_certificate,
             onchain_data = sample_certificate, user_id = Some ''u1'', status = ''pending''\<rparr>, []),
      (None, [''Unknown proof type: diploma'']),
      (Some \<lparr>doc_id = 1, proof_type = ''skill'',
             internal_id = ''skill_20231028120000000002'',
             validation_hash =
               generate_hash [(''skill_name'', JStr ''Rust''),
                              (''skill_category'', JStr ''Programming''),
                              (''proficiency_level'', JNull)],
             onchain_data = [(''skill_name'', JStr ''Rust''),
                             (''skill_category'', JStr ''Programming''),
                             (''proficiency_level'', JNull)],
             user_id = Some ''u1'', status = ''pending''\<rparr>, [])]"
    using sample_run r by simp
  have e: "entries 0 sample_batch rs =
     [entry_of 0 (sample_batch ! 0) (rs ! 0), entry_of 1 (sample_batch ! 1) (rs ! 1),
      entry_of 2 (sample_batch ! 2) (rs ! 2)]"
    unfolding rs by (simp add: sample_batch_def numeral_2_eq_2)
  show ?thesis
    using process_batch_tally [OF r, THEN conjunct1]
    by (simp add: e entry_of_fields) (simp add: rs sample_batch_def)
qed

subsection \<open>The content hash\<close>

lemma length8_cases:
  assumes "length s = 8"
  obtains a b c d e f g h where "s = [a, b, c, d, e, f, g, h]"
  using assms by (auto simp: numeral_eq_Suc length_Suc_conv)

lemma round_length: "length s = 8 \<Longrightarrow> length (round s kw) = 8"
  by (erule length8_cases, cases kw) (simp add: Let_def)

lemma foldl_round_length: "length s = 8 \<Longrightarrow> length (foldl round s xs) = 8"
  by (induction xs arbitrary: s) (simp_all add: round_length)

lemma compress_length: "length h = 8 \<Longrightarrow> length (compress h block) = 8"
  by (simp add: compress_def foldl_round_length)

lemma foldl_compress_length: "length h = 8 \<Longrightarrow> length (foldl compress h bs) = 8"
  by (induction bs arbitrary: h) (simp_all add: compress_length)

lemma hex_digit_range: "n < 16 \<Longrightarrow> hex_digit n \<in> set ''0123456789abcdef''"
  unfolding hex_digit_def by (rule nth_mem) simp

lemma nibble_bound: "unat ((w :: 32 word) AND 0xF) < 16"
proof -
  have "w AND 0xF \<le> 0xF" by (rule word_and_le1)
  then have "unat (w AND 0xF) \<le> unat (0xF :: 32 word)" by (simp add: word_le_nat_alt)
  then show ?thesis by simp
qed

lemma hex_word_shape:
  "length (hex_word w) = 8 \<and> set (hex_word w) \<subseteq> set ''0123456789abcdef''"
proof -
  have "hex_digit (unat (drop_bit (4 * (7 - i)) w AND 0xF)) \<in> set ''0123456789abcdef''" for i
    by (rule hex_digit_range) (rule nibble_bound)
  then show ?thesis unfolding hex_word_def by auto
qed

lemma concat_fixed_length:
  "(\<And>x. x \<in> set xs \<Longrightarrow> length (f x) = k) \<Longrightarrow> length (concat (map f xs)) = k * length xs"
  by (induction xs) simp_all

lemma sha256_hex_shape:
  "length (sha256_hex s) = 64 \<and> set (sha256_hex s) \<subseteq> set ''0123456789abcdef''"
proof -
  let ?st = "foldl compress H0 (blocks (be_words (pad (map of_char s))))"
  have "length ?st = 8"
    by (rule foldl_compress_length) (simp add: H0_def)
  then have "length (concat (map hex_word ?st)) = 8 * 8"
    using concat_fixed_length [of ?st hex_word 8] hex_word_shape by simp
  moreover have "set (concat (map hex_word ?st)) \<subseteq> set ''0123456789abcdef''"
    using hex_word_shape by fastforce
  ultimately show ?thesis by (simp add: sha256_hex_def)
qed

lemma hexval_hex_digit: "n < 16 \<Longrightarrow> hexval (hex_digit n) = n"
proof -
  assume "n < 16"
  then have "n \<in> set [0..<16]" by simp
  moreover have "\<forall>k \<in> set [0..<16]. hexval (hex_digit k) = k"
    by code_simp
  ultimately show ?thesis by blast
qed

lemma of_char_lit:
  "of_char (CHR 0x5C) = (92::nat)" "of_char (CHR 0x22) = (34::nat)"
  "of_char (CHR 0x08) = (8::nat)" "of_char (CHR 0x0C) = (12::nat)"
  "of_char (CHR 0x0A) = (10::nat)" "of_char (CHR 0x0D) = (13::nat)"
  "of_char (CHR 0x09) = (9::nat)"
  by simp_all

lemma char_by_code: "of_char c = (of_char d :: nat) \<Longrightarrow> c = d"
  by simp

lemma escape_short:
  assumes "of_char c = (of_char d :: nat)"
    and "escape_char d = [CHR 0x5C, x]" and "x \<noteq> CHR ''u''" and "short_decode x = d"
  shows "unescape1 (escape_char c @ rest) = Some (c, rest)"
proof -
  have "c = d" using assms(1) by (rule char_by_code)
  then show ?thesis using assms(2-4) by simp
qed

lemma unescape1_escape_char: "unescape1 (escape_char c @ rest) = Some (c, rest)"
proof -
  let ?n = "of_char c :: nat"
  have n: "?n < 256" by simp
  consider "?n = 92" | "?n = 34" | "?n = 8" | "?n = 12" | "?n = 10" | "?n = 13" | "?n = 9"
    | "?n \<noteq> 92" "?n \<noteq> 34" "32 \<le> ?n" "?n \<le> 126"
    | "\<not> (32 \<le> ?n \<and> ?n \<le> 126)" "?n \<noteq> 8" "?n \<noteq> 12" "?n \<noteq> 10" "?n \<noteq> 13" "?n \<noteq> 9"
    by linarith
  then show ?thesis
  proof cases
    case 1
    show ?thesis
      by (rule escape_short [of c "CHR 0x5C" "CHR 0x5C"])
        (simp_all add: 1 escape_char_def short_decode_def)
  next
    case 2
    show ?thesis
      by (rule escape_short [of c "CHR 0x22" "CHR 0x22"])
        (simp_all add: 2 escape_char_def short_decode_def)
  next
    case 3
    show ?thesis
      by (rule escape_short [of c "CHR 0x08" "CHR ''b''"])
        (simp_all add: 3 escape_char_def short_decode_def)
  next
    case 4
    show ?thesis
      by (rule escape_short [of c "CHR 0x0C" "CHR ''f''"])
        (simp_all add: 4 escape_char_def short_decode_def)
  next
    case 5
    show ?thesis
      by (rule escape_short [of c "CHR 0x0A" "CHR ''n''"])
        (simp_all add: 5 escape_char_def short_decode_def)
  next
    case 6
    show ?thesis
      by (rule escape_short [of c "CHR 0x0D" "CHR ''r''"])
        (simp_all add: 6 escape_char_def short_decode_def)
  next
    case 7
    show ?thesis
      by (rule escape_short [of c "CHR 0x09" "CHR ''t''"])
        (simp_all add: 7 escape_char_def short_decode_def)
  next
    case 8
    have e: "escape_char c = [c]" using 8 by (simp add: escape_char_def)
    have "c \<noteq> CHR 0x5C" using 8(1) by auto
    then show ?thesis by (simp add: e)
  next
    case 9
    have s: "?n \<noteq> 92" "?n \<noteq> 34" using 9(1) by auto
    have e: "escape_char c =
       [CHR 0x5C, CHR ''u'', CHR ''0'', CHR ''0'', hex_digit (?n div 16), hex_digit (?n mod 16)]"
      using 9 s by (simp add: escape_char_def Let_def)
    have "k < 256 \<Longrightarrow> k div 16 < 16" for k :: nat by auto
    then have d: "?n div 16 < 16" "?n mod 16 < 16" using n by simp_all
    have "char_of (16 * (?n div 16) + ?n mod 16) = c" by simp
    then show ?thesis
      by (simp add: e hexval_hex_digit [OF d(1)] hexval_hex_digit [OF d(2)])
  qed
qed

lemma escape_char_step:
  assumes "escape_char c1 @ x1 = escape_char c2 @ x2"
  shows "c1 = c2 \<and> x1 = x2"
proof -
  have "Some (c1, x1) = unescape1 (escape_char c1 @ x1)"
    by (simp only: unescape1_escape_char)
  also have "\<dots> = unescape1 (escape_char c2 @ x2)"
    by (simp only: assms)
  also have "\<dots> = Some (c2, x2)"
    by (simp only: unescape1_escape_char)
  finally show ?thesis by (simp only: option.inject prod.inject)
qed

lemma escape_char_quote: "escape_char (CHR 0x22) = [CHR 0x5C, CHR 0x22]"
  by (simp add: escape_char_def)

lemma escape_char_not_quote: "escape_char c @ x \<noteq> CHR 0x22 # y"
proof
  assume a: "escape_char c @ x = CHR 0x22 # y"
  have "Some (c, x) = unescape1 (escape_char c @ x)"
    by (simp only: unescape1_escape_char)
  also have "\<dots> = unescape1 (CHR 0x22 # y)"
    by (simp only: a)
  also have "\<dots> = Some (CHR 0x22, y)"
    by simp
  finally have c: "c = CHR 0x22" by (simp only: option.inject prod.inject)
  have "[CHR 0x5C, CHR 0x22] @ x = CHR 0x22 # y"
    using a unfolding c escape_char_quote .
  then show False by simp
qed

lemma escaped_body_inj:
  "concat (map escape_char s1) @ CHR 0x22 # r1 = concat (map escape_char s2) @ CHR 0x22 # r2
     \<Longrightarrow> s1 = s2 \<and> r1 = r2"
proof (induction s1 arbitrary: s2)
  case Nil
  show ?case
  proof (cases s2)
    case Nil
    with Nil.prems show ?thesis by simp
  next
    case (Cons c cs)
    have "escape_char c @ (concat (map escape_char cs) @ CHR 0x22 # r2) = CHR 0x22 # r1"
      using Nil.prems unfolding Cons by simp
    then show ?thesis using escape_char_not_quote by blast
  qed
next
  case (Cons c1 cs1)
  show ?case
  proof (cases s2)
    case Nil
    have "escape_char c1 @ (concat (map escape_char cs1) @ CHR 0x22 # r1) = CHR 0x22 # r2"
      using Cons.prems unfolding Nil by simp
    then show ?thesis using escape_char_not_quote by blast
  next
    case (Cons c2 cs2)
    have e: "escape_char c1 @ (concat (map escape_char cs1) @ CHR 0x22 # r1) =
             escape_char c2 @ (concat (map escape_char cs2) @ CHR 0x22 # r2)"
      using Cons.prems unfolding Cons by simp
    have c: "c1 = c2"
      and x: "concat (map escape_char cs1) @ CHR 0x22 # r1 =
              concat (map escape_char cs2) @ CHR 0x22 # r2"
      using escape_char_step [OF e] by blast+
    have "cs1 = cs2 \<and> r1 = r2" using x by (rule Cons.IH)
    then show ?thesis unfolding Cons using c by blast
  qed
qed

lemma encode_str_inj:
  assumes "encode_str s1 @ r1 = encode_str s2 @ r2"
  shows "s1 = s2 \<and> r1 = r2"
proof -
  have "concat (map escape_char s1) @ CHR 0x22 # r1 =
        concat (map escape_char s2) @ CHR 0x22 # r2"
    using assms unfolding encode_str_def by simp
  then show ?thesis by (rule escaped_body_inj)
qed

lemma dec_digit: "n < 10 \<Longrightarrow> isdigit (hex_digit n) \<and> hexval (hex_digit n) = n"
proof -
  assume "n < 10"
  then have "n \<in> set [0..<10]" by simp
  moreover have "\<forall>k \<in> set [0..<10]. isdigit (hex_digit k) \<and> hexval (hex_digit k) = k"
    by code_simp
  ultimately show ?thesis by blast
qed

lemma digits_isdigit: "\<forall>c \<in> set (digits n). isdigit c"
proof (induction n rule: digits.induct)
  case (1 n)
  show ?case
  proof (cases "n < 10")
    case True
    then show ?thesis using dec_digit [of n] by (subst digits.simps) simp
  next
    case False
    then show ?thesis using 1 dec_digit [of "n mod 10"] by (subst digits.simps) auto
  qed
qed

lemma digits_nonempty: "digits n \<noteq> []"
  by (subst digits.simps) simp

lemma decimal_snoc: "decimal (s @ [c]) = 10 * decimal s + hexval c"
  by (simp add: decimal_def)

lemma decimal_digits: "decimal (digits n) = n"
proof (induction n rule: digits.induct)
  case (1 n)
  show ?case
  proof (cases "n < 10")
    case True
    then show ?thesis using dec_digit [of n] by (subst digits.simps) (simp add: decimal_def)
  next
    case False
    then show ?thesis
      using 1 dec_digit [of "n mod 10"] by (subst digits.simps) (simp add: decimal_snoc)
  qed
qed

lemma digits_inj:
  assumes "digits a = digits b"
  shows "a = b"
proof -
  have "decimal (digits a) = decimal (digits b)" using assms by (rule arg_cong)
  then show ?thesis by (simp only: decimal_digits)
qed

text \<open>A run of characters with a property, followed by one without it, is determined.\<close>

lemma run_unique:
  assumes "xs @ r1 = ys @ r2"
    and "\<forall>x \<in> set xs. P x" and "\<forall>y \<in> set ys. P y"
    and "r1 = [] \<or> \<not> P (hd r1)" and "r2 = [] \<or> \<not> P (hd r2)"
  shows "xs = ys \<and> r1 = r2"
proof -
  have t: "takeWhile P (zs @ r) = zs" if "\<forall>z \<in> set zs. P z" "r = [] \<or> \<not> P (hd r)" for zs r
    using that by (cases r) (simp_all add: takeWhile_append2)
  have "xs = takeWhile P (xs @ r1)" using t [of xs r1] assms(2,4) by simp
  also have "\<dots> = takeWhile P (ys @ r2)" using assms(1) by simp
  also have "\<dots> = ys" using t [of ys r2] assms(3,5) by simp
  finally have "xs = ys" .
  with assms(1) show ?thesis by simp
qed

lemma digits_head: "\<exists>c cs. digits n = c # cs \<and> isdigit c"
proof -
  obtain c cs where d: "digits n = c # cs"
    using digits_nonempty [of n] by (cases "digits n") auto
  have "isdigit c" using digits_isdigit [of n] unfolding d by simp
  with d show ?thesis by blast
qed

lemma not_digit: "\<not> isdigit (CHR ''-'')" "\<not> isdigit (CHR '','')" "\<not> isdigit (CHR ''}'')"
  "\<not> isdigit (CHR ''n'')" "\<not> isdigit (CHR ''t'')" "\<not> isdigit (CHR ''f'')"
  "\<not> isdigit (CHR 0x22)"
  by (simp_all add: isdigit_def)

lemma digits_run:
  assumes "digits a @ r1 = digits b @ r2"
    and "r1 = [] \<or> \<not> isdigit (hd r1)" and "r2 = [] \<or> \<not> isdigit (hd r2)"
  shows "a = b \<and> r1 = r2"
proof -
  have "digits a = digits b \<and> r1 = r2"
    using assms(1) digits_isdigit [of a] digits_isdigit [of b] assms(2,3) by (rule run_unique)
  then show ?thesis using digits_inj by blast
qed

lemma digits_not_minus: "digits a @ r1 \<noteq> CHR ''-'' # r2"
proof
  assume e: "digits a @ r1 = CHR ''-'' # r2"
  obtain c cs where d: "digits a = c # cs" and c: "isdigit c" using digits_head by blast
  from e have "c = CHR ''-''" unfolding d by simp
  with c not_digit(1) show False by simp
qed

lemma repr_int_inj:
  assumes "repr_int i @ r1 = repr_int j @ r2"
    and "r1 = [] \<or> \<not> isdigit (hd r1)" and "r2 = [] \<or> \<not> isdigit (hd r2)"
  shows "i = j \<and> r1 = r2"
proof (cases "i < 0")
  case True
  note i = this
  show ?thesis
  proof (cases "j < 0")
    case True
    have "digits (nat (- i)) @ r1 = digits (nat (- j)) @ r2"
      using assms(1) i True by (simp add: repr_int_def)
    then have "nat (- i) = nat (- j) \<and> r1 = r2" using assms(2,3) by (rule digits_run)
    with i True show ?thesis by auto
  next
    case False
    have "digits (nat j) @ r2 = CHR ''-'' # (digits (nat (- i)) @ r1)"
      using assms(1) i False by (simp add: repr_int_def)
    then show ?thesis using digits_not_minus by blast
  qed
next
  case False
  note i = this
  show ?thesis
  proof (cases "j < 0")
    case True
    have "digits (nat i) @ r1 = CHR ''-'' # (digits (nat (- j)) @ r2)"
      using assms(1) i True by (simp add: repr_int_def)
    then show ?thesis using digits_not_minus by blast
  next
    case False
    have "digits (nat i) @ r1 = digits (nat j) @ r2"
      using assms(1) i False by (simp add: repr_int_def)
    then have "nat i = nat j \<and> r1 = r2" using assms(2,3) by (rule digits_run)
    with i False show ?thesis by auto
  qed
qed

lemma repr_int_head: "\<exists>c cs. repr_int i = c # cs \<and> (isdigit c \<or> c = CHR ''-'')"
  using digits_head [of "nat i"] by (auto simp: repr_int_def)

lemma encode_str_head: "\<exists>cs. encode_str s = CHR 0x22 # cs"
  by (simp add: encode_str_def)

text \<open>The first character of an encoded value tells its kind.\<close>

lemma encode_value_head:
  "\<exists>c cs. encode_value v = c # cs \<and>
     (case v of
        JNull \<Rightarrow> c = CHR ''n''
      | JBool b \<Rightarrow> c = CHR ''t'' \<or> c = CHR ''f''
      | JInt i \<Rightarrow> isdigit c \<or> c = CHR ''-''
      | JStr s \<Rightarrow> c = CHR 0x22)"
proof (cases v)
  case JNull
  then show ?thesis by simp
next
  case (JBool b)
  then show ?thesis by simp
next
  case (JInt i)
  then show ?thesis using repr_int_head [of i] by simp
next
  case (JStr s)
  then show ?thesis using encode_str_head [of s] by simp
qed

lemma isdigit_cases:
  "isdigit c \<Longrightarrow> c \<noteq> CHR ''n'' \<and> c \<noteq> CHR ''t'' \<and> c \<noteq> CHR ''f'' \<and> c \<noteq> CHR 0x22 \<and> c \<noteq> CHR ''-''"
  using not_digit by auto

lemma encode_value_inj:
  assumes e: "encode_value v1 @ r1 = encode_value v2 @ r2"
    and t1: "r1 = [] \<or> \<not> isdigit (hd r1)" and t2: "r2 = [] \<or> \<not> isdigit (hd r2)"
  shows "v1 = v2 \<and> r1 = r2"
proof -
  obtain c1 cs1 where h1: "encode_value v1 = c1 # cs1"
    and k1: "case v1 of JNull \<Rightarrow> c1 = CHR ''n'' | JBool b \<Rightarrow> c1 = CHR ''t'' \<or> c1 = CHR ''f''
              | JInt i \<Rightarrow> isdigit c1 \<or> c1 = CHR ''-'' | JStr s \<Rightarrow> c1 = CHR 0x22"
    using encode_value_head [of v1] by blast
  obtain c2 cs2 where h2: "encode_value v2 = c2 # cs2"
    and k2: "case v2 of JNull \<Rightarrow> c2 = CHR ''n'' | JBool b \<Rightarrow> c2 = CHR ''t'' \<or> c2 = CHR ''f''
              | JInt i \<Rightarrow> isdigit c2 \<or> c2 = CHR ''-'' | JStr s \<Rightarrow> c2 = CHR 0x22"
    using encode_value_head [of v2] by blast
  have c: "c1 = c2" using e unfolding h1 h2 by simp
  show ?thesis
  proof (cases v1)
    case JNull
    then show ?thesis using k1 k2 c e isdigit_cases [of c2] by (cases v2) auto
  next
    case (JBool b1)
    show ?thesis
    proof (cases v2)
      case (JBool b2)
      with \<open>v1 = JBool b1\<close> e show ?thesis by (cases b1; cases b2) simp_all
    qed (use JBool k1 k2 c isdigit_cases [of c2] in auto)
  next
    case (JInt i)
    show ?thesis
    proof (cases v2)
      case (JInt j)
      with \<open>v1 = JInt i\<close> e have "repr_int i @ r1 = repr_int j @ r2" by simp
      then have "i = j \<and> r1 = r2" using t1 t2 by (rule repr_int_inj)
      with JInt \<open>v1 = JInt i\<close> show ?thesis by simp
    qed (use JInt k1 k2 c isdigit_cases [of c1] in auto)
  next
    case (JStr s1)
    show ?thesis
    proof (cases v2)
      case (JStr s2)
      with \<open>v1 = JStr s1\<close> e have "encode_str s1 @ r1 = encode_str s2 @ r2" by simp
      then have "s1 = s2 \<and> r1 = r2" by (rule encode_str_inj)
      with JStr \<open>v1 = JStr s1\<close> show ?thesis by simp
    qed (use JStr k1 k2 c isdigit_cases [of c2] in auto)
  qed
qed

lemma encode_item_inj:
  assumes "encode_item (k, v1) @ r1 = encode_item (k, v2) @ r2"
    and "r1 = [] \<or> \<not> isdigit (hd r1)" and "r2 = [] \<or> \<not> isdigit (hd r2)"
  shows "v1 = v2 \<and> r1 = r2"
proof -
  have "encode_value v1 @ r1 = encode_value v2 @ r2"
    using assms(1) by (simp add: encode_item_def)
  then show ?thesis using assms(2,3) by (rule encode_value_inj)
qed

lemma joined_items_inj:
  "map fst ps1 = map fst ps2 \<Longrightarrow>
   join '', '' (map encode_item ps1) @ CHR ''}'' # r1 =
   join '', '' (map encode_item ps2) @ CHR ''}'' # r2 \<Longrightarrow>
   ps1 = ps2 \<and> r1 = r2"
proof (induction ps1 arbitrary: ps2)
  case Nil
  then show ?case by simp
next
  case (Cons p1 t1)
  obtain p2 t2 where ps2: "ps2 = p2 # t2" using Cons.prems(1) by (cases ps2) auto
  obtain k v1 where p1: "p1 = (k, v1)" by (cases p1)
  obtain v2 where p2: "p2 = (k, v2)" using Cons.prems(1) ps2 p1 by (cases p2) auto
  have keys: "map fst t1 = map fst t2" using Cons.prems(1) ps2 by simp
  show ?case
  proof (cases t1)
    case Nil
    then have t2: "t2 = []" using keys by simp
    have "encode_item (k, v1) @ CHR ''}'' # r1 = encode_item (k, v2) @ CHR ''}'' # r2"
      using Cons.prems(2) unfolding ps2 p1 p2 Nil t2 by simp
    then have "v1 = v2 \<and> CHR ''}'' # r1 = CHR ''}'' # r2"
      by (rule encode_item_inj) (simp_all add: not_digit)
    then show ?thesis unfolding ps2 p1 p2 Nil t2 by simp
  next
    case (Cons y1 u1)
    obtain y2 u2 where t2: "t2 = y2 # u2" using keys Cons by (cases t2) auto
    let ?x1 = "join '', '' (map encode_item t1) @ CHR ''}'' # r1"
    let ?x2 = "join '', '' (map encode_item t2) @ CHR ''}'' # r2"
    have "encode_item (k, v1) @ (CHR '','' # CHR '' '' # ?x1) =
          encode_item (k, v2) @ (CHR '','' # CHR '' '' # ?x2)"
      using Cons.prems(2) unfolding ps2 p1 p2 Cons t2 by simp
    then have "v1 = v2 \<and> CHR '','' # CHR '' '' # ?x1 = CHR '','' # CHR '' '' # ?x2"
      by (rule encode_item_inj) (simp_all add: not_digit)
    then have v: "v1 = v2" and x: "?x1 = ?x2" by simp_all
    have "t1 = t2 \<and> r1 = r2" using keys x by (rule Cons.IH)
    then show ?thesis unfolding ps2 p1 p2 using v by simp
  qed
qed

lemma map_insort_key: "map f (insort_key f x ys) = insort (f x) (map f ys)"
  by (induction ys) simp_all

lemma map_sort_key: "map f (sort_key f xs) = sort (map f xs)"
  by (induction xs) (simp_all add: map_insort_key)

lemma same_keys_same_items:
  assumes "map fst xs = map fst ys" and "distinct (map fst xs)" and "set xs = set ys"
  shows "xs = ys"
proof -
  have m: "map_of xs = map_of ys"
    using assms by (simp add: map_of_inject_set)
  have x: "xs = zip (map fst xs) (map snd xs)"
    by (simp add: zip_map_fst_snd)
  have "ys = zip (map fst ys) (map snd ys)"
    by (simp add: zip_map_fst_snd)
  then have y: "ys = zip (map fst xs) (map snd ys)"
    by (simp only: assms(1))
  have "map_of (zip (map fst xs) (map snd xs)) = map_of (zip (map fst xs) (map snd ys))"
    using m x y by simp
  moreover have "length (map snd xs) = length (map fst xs)" by simp
  moreover have "length (map snd ys) = length (map fst xs)"
    using assms(1) by (metis length_map)
  ultimately have "map snd xs = map snd ys"
    using assms(2) map_of_zip_inject by blast
  with x y show ?thesis by simp
qed

text \<open>
  Two payloads with the same keys, in the same order and without duplicates, have the
  same serialization only if they are equal.
\<close>

lemma json_dumps_inj:
  assumes "map fst oc1 = map fst oc2" and "distinct (map fst oc1)"
    and "json_dumps oc1 = json_dumps oc2"
  shows "oc1 = oc2"
proof -
  let ?p1 = "sort_key fst oc1" and ?p2 = "sort_key fst oc2"
  have k: "map fst ?p1 = map fst ?p2" using assms(1) by (simp add: map_sort_key)
  have "join '', '' (map encode_item ?p1) @ CHR ''}'' # [] =
        join '', '' (map encode_item ?p2) @ CHR ''}'' # []"
    using assms(3) by (simp add: json_dumps_def)
  with k have "?p1 = ?p2 \<and> [] = ([] :: string)" by (rule joined_items_inj)
  then have "set ?p1 = set ?p2" by simp
  then have "set oc1 = set oc2" by simp
  with assms(1,2) show ?thesis by (rule same_keys_same_items)
qed

end
